theory Spec2Isabelle
  imports Complex_Main
begin

section \<open>The learning-guided rollout node (scripts/rl\_node.py)\<close>

text \<open>
  The node \<^verbatim>\<open>RLNode\<close> receives range scans and odometry. On every odometry message it
  asks a learned policy for a control action and either publishes the action as a drive
  command or rolls the policy forward through a vehicle simulator for \<^verbatim>\<open>N_SIM\<close> steps
  and publishes the resampled trajectory.

  Conventions of the embedding.
  \<^item> A finite floating-point number is a \<^typ>\<open>real\<close>; rounding (float32 storage,
    float64 arithmetic) is not modelled. The one place where the source can turn a finite
    input into NaN is \<^verbatim>\<open>np.arccos\<close>; there the value is a \<^typ>\<open>real option\<close> and
    \<^term>\<open>None\<close> is NaN. NaN propagates through arithmetic (\<^const>\<open>map_option\<close>).
  \<^item> An exception is a value of \<open>error\<close>. A callback returns the exception (if any)
    together with the state it has reached and the calls it has made so far.
  \<^item> The policy (ONNX session) and the simulator (gym environment) are outside the
    repository. They are parameters: total functions, the simulator threading a state of
    its own. The calls made to them and the messages published are recorded in a trace,
    in the order of execution.
\<close>

datatype error = ValueError | IndexError | ZeroDivisionError

subsection \<open>numpy and Python primitives\<close>

text \<open>\<^verbatim>\<open>a.clip(lo, hi)\<close> is \<^verbatim>\<open>minimum(maximum(a, lo), hi)\<close>, also when \<open>hi < lo\<close>.\<close>

definition clip :: "real \<Rightarrow> real \<Rightarrow> real \<Rightarrow> real" where
  "clip lo hi x = min (max x lo) hi"

text \<open>\<^verbatim>\<open>np.arccos\<close> returns NaN (with a warning, no exception) outside \<open>[-1, 1]\<close>.\<close>

definition np_arccos :: "real \<Rightarrow> real option" where
  "np_arccos w = (if - 1 \<le> w \<and> w \<le> 1 then Some (arccos w) else None)"

text \<open>\<^verbatim>\<open>np.arctan2(y, x)\<close>: the angle of the vector \<open>(x, y)\<close>, and 0 at the origin.\<close>

definition np_arctan2 :: "real \<Rightarrow> real \<Rightarrow> real" where
  "np_arctan2 y x =
     (if 0 < x then arctan (y / x)
      else if x < 0 then (if 0 \<le> y then arctan (y / x) + pi else arctan (y / x) - pi)
      else if 0 < y then pi / 2
      else if y < 0 then - (pi / 2)
      else 0)"

text \<open>The float operator \<^verbatim>\<open>%\<close>: the result has the sign of the divisor.\<close>

definition py_mod :: "real \<Rightarrow> real \<Rightarrow> real" where
  "py_mod x y = x - y * of_int \<lfloor>x / y\<rfloor>"

text \<open>\<^verbatim>\<open>int(x)\<close> on a float truncates towards zero.\<close>

definition py_int :: "real \<Rightarrow> int" where
  "py_int x = (if 0 \<le> x then \<lfloor>x\<rfloor> else \<lceil>x\<rceil>)"

text \<open>
  \<^verbatim>\<open>values[index_array]\<close> with an array of non-negative indices: IndexError as soon as
  one index is out of bounds.
\<close>

definition take_idx :: "'a list \<Rightarrow> nat list \<Rightarrow> error + 'a list" where
  "take_idx vs idx =
     (if list_all (\<lambda>i. i < length vs) idx then Inr (map (\<lambda>i. vs ! i) idx)
      else Inl IndexError)"

text \<open>
  \<^verbatim>\<open>a[::k]\<close>: the indices \<open>0, k, 2k, \<dots>\<close> below the length for a positive step, the
  indices \<open>len - 1, len - 1 - |k|, \<dots>\<close> down to 0 for a negative one, ValueError for 0.
\<close>

definition slice_step :: "int \<Rightarrow> 'a list \<Rightarrow> error + 'a list" where
  "slice_step k xs =
     (if k = 0 then Inl ValueError
      else if 0 < k then
        Inr (map (\<lambda>j. xs ! (j * nat k)) [0 ..< (length xs + nat k - 1) div nat k])
      else
        Inr (map (\<lambda>j. xs ! (length xs - 1 - j * nat (- k)))
               [0 ..< (length xs + nat (- k) - 1) div nat (- k)]))"

subsection \<open>Messages, configuration and node state\<close>

record odometry =
  pos_x :: real
  pos_y :: real
  pos_z :: real
  ori_x :: real
  ori_y :: real
  ori_z :: real
  ori_w :: real
  lin_x :: real
  lin_y :: real
  lin_z :: real
  ang_x :: real
  ang_y :: real
  ang_z :: real

record laser_scan_msg =
  range_min :: real
  range_max :: real
  angle_min :: real
  angle_max :: real
  angle_increment :: real
  ranges :: "real list"

text \<open>The fields of the configuration file that the node reads after start-up.\<close>

record config =
  num_scans :: int
  n_steps :: int
  sim_time_step :: real
  rl_sim_time_step :: real
  use_mppi :: bool

text \<open>
  The attributes of \<^verbatim>\<open>RLNode\<close> that the callbacks read or write. \<open>pose\<close> is
  \<open>(x, y, yaw)\<close>, \<open>vels\<close> is \<open>(vx, vy, yaw rate)\<close>, \<open>heading\<close> is \<open>(steer, beta)\<close>.
\<close>

record node =
  pose :: "real \<times> real \<times> real option"
  vels :: "real \<times> real \<times> real"
  heading :: "real \<times> real"
  SCAN_INDEX :: "nat list"
  laser_scan :: "real list"
  N_SIM :: int
  DRIVE :: bool
  cfg :: config

definition LF :: real where "LF = 0.15875"
definition LR :: real where "LR = 0.17145"

definition CONTROL_MAX :: "real \<times> real" where
  "CONTROL_MAX = (0.4189, 4.0)"

text \<open>The observation handed to the policy, and one row of \<^verbatim>\<open>ref_traj\<close>.\<close>

record obs =
  obs_scan :: "real list"
  obs_pose :: "real \<times> real \<times> real option"
  obs_vel :: "real \<times> real \<times> real"
  obs_heading :: "real \<times> real"

record mppi_state =
  st_x :: real
  st_y :: real
  st_delta :: real
  st_vx :: real
  st_yaw_wrapped :: "real option"
  st_yaw_rate :: real
  st_beta :: real

text \<open>A row of \<^verbatim>\<open>np.zeros((N_SIM + 1, 7))\<close>.\<close>

definition zero_state :: mppi_state where
  "zero_state = \<lparr>st_x = 0, st_y = 0, st_delta = 0, st_vx = 0, st_yaw_wrapped = Some 0,
                 st_yaw_rate = 0, st_beta = 0\<rparr>"

text \<open>What \<^verbatim>\<open>env.step\<close> returns for the single agent.\<close>

record sim_obs =
  scans :: "real list"
  poses_x :: real
  poses_y :: real
  poses_theta :: real
  linear_vels_x :: real
  linear_vels_y :: real
  ang_vels_z :: real

record marker =
  mk_x :: real
  mk_y :: real
  mk_w :: real
  mk_z :: real
  mk_id :: nat

datatype event =
    PolicyRun obs
  | EnvReset "real \<times> real \<times> real option"
  | EnvStep "real \<times> real"
  | DrivePublish real real
  | VizPublish "marker list"
  | TrajPublish "mppi_state list"

text \<open>
  The external collaborators: \<open>policy\<close> gives the two raw outputs \<^verbatim>\<open>control[0][0, 0]\<close>
  of the network, \<open>env_reset\<close> and \<open>env_step\<close> are the simulator.
\<close>

record 'sim backends =
  policy :: "obs \<Rightarrow> real \<times> real"
  env_reset :: "real \<times> real \<times> real option \<Rightarrow> 'sim \<Rightarrow> 'sim"
  env_step :: "real \<times> real \<Rightarrow> 'sim \<Rightarrow> sim_obs \<times> 'sim"

subsection \<open>Start-up\<close>

text \<open>
  \<^verbatim>\<open>SCAN_INDEX = np.arange(0, 1080, 1080 // N_BEAMS)\<close>. The floor division raises for
  \<open>N_BEAMS = 0\<close>, \<^verbatim>\<open>arange\<close> raises for a step of 0 and is empty for a negative step.
\<close>

definition scan_index :: "int \<Rightarrow> error + nat list" where
  "scan_index n_beams =
     (if n_beams = 0 then Inl ZeroDivisionError
      else let s = 1080 div n_beams in
        if s = 0 then Inl ZeroDivisionError
        else if s < 0 then Inr []
        else Inr (map (\<lambda>j. j * nat s) [0 ..< (1080 + nat s - 1) div nat s]))"

text \<open>
  The part of \<^verbatim>\<open>__init__\<close> that computes the attributes above (lines 56 to 63 and 95 to
  100). \<^verbatim>\<open>np.ones((1, N_BEAMS))\<close> raises ValueError for a negative size, the float
  division raises for a zero divisor.
\<close>

definition init :: "config \<Rightarrow> error + node" where
  "init c =
     (case scan_index (num_scans c) of
        Inl e \<Rightarrow> Inl e
      | Inr idx \<Rightarrow>
          if num_scans c < 0 then Inl ValueError
          else if rl_sim_time_step c = 0 then Inl ZeroDivisionError
          else Inr \<lparr>pose = (0, 0, Some 0), vels = (0, 0, 0), heading = (0, 0),
                    SCAN_INDEX = idx,
                    laser_scan = replicate (nat (num_scans c)) 10,
                    N_SIM = py_int (of_int (n_steps c) * sim_time_step c / rl_sim_time_step c),
                    DRIVE = (\<not> use_mppi c),
                    cfg = c\<rparr>)"

subsection \<open>The scan callback\<close>

text \<open>
  \<^verbatim>\<open>self.laser_scan[0] = values[self.SCAN_INDEX]\<close>: the selection must have the length of
  the buffer row, or length 1 (broadcast); otherwise numpy raises ValueError.
\<close>

definition laser_callback :: "node \<Rightarrow> laser_scan_msg \<Rightarrow> error + node" where
  "laser_callback nd msg =
     (let values = map (clip (range_min msg) (range_max msg)) (ranges msg) in
      case take_idx values (SCAN_INDEX nd) of
        Inl e \<Rightarrow> Inl e
      | Inr sel \<Rightarrow>
          if length sel = length (laser_scan nd) then Inr (nd\<lparr>laser_scan := sel\<rparr>)
          else if length sel = 1 then
            Inr (nd\<lparr>laser_scan := replicate (length (laser_scan nd)) (hd sel)\<rparr>)
          else Inl ValueError)"

subsection \<open>Inference adapter, slip angle and output convention\<close>

definition run_model :: "(obs \<Rightarrow> real \<times> real) \<Rightarrow> obs \<Rightarrow> real \<times> real" where
  "run_model pol ob =
     (let control = pol ob in
      (clip (- 1) 1 (fst control) * fst CONTROL_MAX,
       clip (- 1) 1 (snd control) * snd CONTROL_MAX))"

definition get_beta :: "real \<Rightarrow> real" where
  "get_beta steer = arctan (LR * tan steer / (LF + LR))"

definition to_mppi_state ::
  "real \<Rightarrow> real \<Rightarrow> real option \<Rightarrow> real \<Rightarrow> real \<Rightarrow> real \<Rightarrow> real \<Rightarrow> mppi_state" where
  "to_mppi_state x y yaw yaw_rate vx vy delta =
     \<lparr>st_x = x, st_y = y, st_delta = delta, st_vx = vx,
      st_yaw_wrapped = map_option (\<lambda>a. py_mod (a + pi) (2 * pi) - pi) yaw,
      st_yaw_rate = yaw_rate,
      st_beta = np_arctan2 vy vx\<rparr>"

text \<open>
  \<^verbatim>\<open>visualize_future_pose\<close>: one arrow per predicted pose. The three lists \<^verbatim>\<open>xs\<close>,
  \<^verbatim>\<open>ys\<close>, \<^verbatim>\<open>yaws\<close> of the source are appended to together, so they are kept as one
  list of triples.
\<close>

definition visualize_future_pose :: "(real \<times> real \<times> real) list \<Rightarrow> marker list" where
  "visualize_future_pose ps =
     map (\<lambda>(i, (x, y, yaw)).
            \<lparr>mk_x = x, mk_y = y, mk_w = cos (yaw / 2), mk_z = sin (yaw / 2), mk_id = i\<rparr>)
         (enumerate 0 ps)"

subsection \<open>The odometry callback\<close>

text \<open>
  The variables of the loop \<^verbatim>\<open>for i in range(self.N_SIM)\<close>: the simulator, the last
  action \<^verbatim>\<open>(steer, vel)\<close>, the predicted poses, \<^verbatim>\<open>ref_traj\<close>, and the trace.
\<close>

record 'sim rollout_state =
  rs_sim :: 'sim
  rs_steer :: real
  rs_vel :: real
  rs_poses :: "(real \<times> real \<times> real) list"
  rs_ref :: "mppi_state list"
  rs_trace :: "event list"

text \<open>
  One iteration \<open>i\<close> of the loop body (lines 163 to 183). It raises IndexError when the
  simulated scan is too short for \<^verbatim>\<open>SCAN_INDEX\<close>, or when row \<open>i + 1\<close> of
  \<^verbatim>\<open>ref_traj\<close> does not exist.
\<close>

definition rollout_step ::
  "'sim backends \<Rightarrow> nat list \<Rightarrow> nat \<Rightarrow> 'sim rollout_state
     \<Rightarrow> error option \<times> 'sim rollout_state" where
  "rollout_step B idx i st =
     (let r = env_step B (rs_steer st, rs_vel st) (rs_sim st);
          so = fst r;
          st1 = st\<lparr>rs_sim := snd r,
                   rs_trace := rs_trace st @ [EnvStep (rs_steer st, rs_vel st)]\<rparr>
      in case take_idx (scans so) idx of
           Inl e \<Rightarrow> (Some e, st1)
         | Inr scan \<Rightarrow>
             let x = poses_x so; y = poses_y so; yaw = poses_theta so;
                 vel_x = linear_vels_x so; vel_y = linear_vels_y so;
                 vel_ori = ang_vels_z so;
                 beta = get_beta (rs_steer st);
                 ob = \<lparr>obs_scan = scan, obs_pose = (x, y, Some yaw),
                       obs_vel = (vel_x, vel_y, vel_ori),
                       obs_heading = (rs_steer st, beta)\<rparr>;
                 a = run_model (policy B) ob;
                 st2 = st1\<lparr>rs_steer := fst a, rs_vel := snd a,
                           rs_poses := rs_poses st1 @ [(x, y, yaw)],
                           rs_trace := rs_trace st1 @ [PolicyRun ob]\<rparr>
             in if i + 1 < length (rs_ref st2) then
                  (None, st2\<lparr>rs_ref := (rs_ref st2)
                            [i + 1 := to_mppi_state x y (Some yaw) vel_ori vel_x vel_y (fst a)]\<rparr>)
                else (Some IndexError, st2))"

text \<open>
  \<open>rollout B idx n i st\<close> runs the \<open>n\<close> iterations \<open>i, i + 1, \<dots>\<close> of
  \<^verbatim>\<open>for i in range(self.N_SIM)\<close>; an exception ends it. The loop has no
  \<^verbatim>\<open>break\<close> and no other exit.
\<close>

fun rollout ::
  "'sim backends \<Rightarrow> nat list \<Rightarrow> nat \<Rightarrow> nat \<Rightarrow> 'sim rollout_state
     \<Rightarrow> error option \<times> 'sim rollout_state" where
  "rollout B idx 0 i st = (None, st)"
| "rollout B idx (Suc n) i st =
     (let r = rollout_step B idx i st in
      case fst r of
        Some e \<Rightarrow> r
      | None \<Rightarrow> rollout B idx n (i + 1) (snd r))"

text \<open>What a callback leaves behind: the exception raised (if any), the node, the
  simulator, and the calls and publications made, oldest first.\<close>

record 'sim outcome =
  oc_err :: "error option"
  oc_node :: node
  oc_sim :: 'sim
  oc_trace :: "event list"

text \<open>
  \<^verbatim>\<open>pose_callback\<close> (lines 123 to 189). \<^verbatim>\<open>np.zeros((N_SIM + 1, 7))\<close> raises
  ValueError for a negative size; writing row 0 of an empty array raises IndexError; the
  float division of the two time steps raises for a zero divisor.
\<close>

definition pose_callback ::
  "'sim backends \<Rightarrow> node \<Rightarrow> 'sim \<Rightarrow> odometry \<Rightarrow> 'sim outcome" where
  "pose_callback B nd sim msg =
     (if N_SIM nd + 1 < 0 then
        \<lparr>oc_err = Some ValueError, oc_node = nd, oc_sim = sim, oc_trace = []\<rparr>
      else
        let ref_traj = replicate (nat (N_SIM nd + 1)) zero_state;
            yaw = map_option (\<lambda>a. 2 * a) (np_arccos (ori_w msg));
            nd1 = nd\<lparr>pose := (pos_x msg, pos_y msg, yaw),
                     vels := (lin_x msg, lin_y msg, ang_z msg)\<rparr>;
            ob = \<lparr>obs_scan = laser_scan nd1, obs_pose = pose nd1, obs_vel = vels nd1,
                  obs_heading = heading nd1\<rparr>;
            a = run_model (policy B) ob;
            steer = fst a; vel = snd a;
            nd2 = nd1\<lparr>heading := (steer, get_beta steer)\<rparr>;
            tr = [PolicyRun ob]
        in if ref_traj = [] then
             \<lparr>oc_err = Some IndexError, oc_node = nd2, oc_sim = sim, oc_trace = tr\<rparr>
           else if DRIVE nd2 then
             \<lparr>oc_err = None, oc_node = nd2, oc_sim = sim,
              oc_trace = tr @ [DrivePublish vel steer]\<rparr>
           else
             let pose0 = (pos_x msg, pos_y msg, yaw);
                 st0 = \<lparr>rs_sim = env_reset B pose0 sim, rs_steer = steer, rs_vel = vel,
                        rs_poses = [],
                        rs_ref = ref_traj[0 := to_mppi_state (pos_x msg) (pos_y msg) yaw
                                   (ang_z msg) (lin_x msg) (lin_y msg) steer],
                        rs_trace = tr @ [EnvReset pose0]\<rparr>;
                 r = rollout B (SCAN_INDEX nd2) (nat (N_SIM nd2)) 0 st0;
                 st = snd r
             in case fst r of
                  Some e \<Rightarrow>
                    \<lparr>oc_err = Some e, oc_node = nd2, oc_sim = rs_sim st,
                     oc_trace = rs_trace st\<rparr>
                | None \<Rightarrow>
                    let tr1 = rs_trace st @ [VizPublish (visualize_future_pose (rs_poses st))]
                    in if rl_sim_time_step (cfg nd2) = 0 then
                         \<lparr>oc_err = Some ZeroDivisionError, oc_node = nd2, oc_sim = rs_sim st,
                          oc_trace = tr1\<rparr>
                       else
                         case slice_step
                                (py_int (sim_time_step (cfg nd2) / rl_sim_time_step (cfg nd2)))
                                (rs_ref st) of
                           Inl e \<Rightarrow>
                             \<lparr>oc_err = Some e, oc_node = nd2, oc_sim = rs_sim st,
                              oc_trace = tr1\<rparr>
                         | Inr out \<Rightarrow>
                             \<lparr>oc_err = None, oc_node = nd2, oc_sim = rs_sim st,
                              oc_trace = tr1 @ [TrajPublish out]\<rparr>)"

subsection \<open>Reading a trace\<close>

fun is_policy_run :: "event \<Rightarrow> bool" where
  "is_policy_run (PolicyRun ob) = True"
| "is_policy_run e = False"

fun is_env_step :: "event \<Rightarrow> bool" where
  "is_env_step (EnvStep a) = True"
| "is_env_step e = False"

fun is_env_reset :: "event \<Rightarrow> bool" where
  "is_env_reset (EnvReset p) = True"
| "is_env_reset e = False"

fun is_viz_publish :: "event \<Rightarrow> bool" where
  "is_viz_publish (VizPublish ms) = True"
| "is_viz_publish e = False"

fun is_traj_publish :: "event \<Rightarrow> bool" where
  "is_traj_publish (TrajPublish t) = True"
| "is_traj_publish e = False"

definition count_events :: "(event \<Rightarrow> bool) \<Rightarrow> event list \<Rightarrow> nat" where
  "count_events P tr = length (filter P tr)"

text \<open>
  Names for the values \<^verbatim>\<open>pose_callback\<close> computes before it branches on the mode: the yaw
  of line 130, the observation of lines 138 to 143, the action of line 145, the node after
  line 147, row 0 of \<^verbatim>\<open>ref_traj\<close> (line 148), and the loop variables on entry to the loop
  (after the reset of line 161).
\<close>

definition cycle_yaw :: "odometry \<Rightarrow> real option" where
  "cycle_yaw msg = map_option (\<lambda>a. 2 * a) (np_arccos (ori_w msg))"

definition cycle_obs :: "node \<Rightarrow> odometry \<Rightarrow> obs" where
  "cycle_obs nd msg =
     \<lparr>obs_scan = laser_scan nd, obs_pose = (pos_x msg, pos_y msg, cycle_yaw msg),
      obs_vel = (lin_x msg, lin_y msg, ang_z msg), obs_heading = heading nd\<rparr>"

definition cycle_action :: "'sim backends \<Rightarrow> node \<Rightarrow> odometry \<Rightarrow> real \<times> real" where
  "cycle_action B nd msg = run_model (policy B) (cycle_obs nd msg)"

definition cycle_node :: "'sim backends \<Rightarrow> node \<Rightarrow> odometry \<Rightarrow> node" where
  "cycle_node B nd msg =
     nd\<lparr>pose := (pos_x msg, pos_y msg, cycle_yaw msg),
        vels := (lin_x msg, lin_y msg, ang_z msg),
        heading := (fst (cycle_action B nd msg), get_beta (fst (cycle_action B nd msg)))\<rparr>"

definition cycle_row0 :: "'sim backends \<Rightarrow> node \<Rightarrow> odometry \<Rightarrow> mppi_state" where
  "cycle_row0 B nd msg =
     to_mppi_state (pos_x msg) (pos_y msg) (cycle_yaw msg) (ang_z msg) (lin_x msg) (lin_y msg)
       (fst (cycle_action B nd msg))"

definition cycle_start ::
  "'sim backends \<Rightarrow> node \<Rightarrow> 'sim \<Rightarrow> odometry \<Rightarrow> 'sim rollout_state" where
  "cycle_start B nd sim msg =
     \<lparr>rs_sim = env_reset B (pos_x msg, pos_y msg, cycle_yaw msg) sim,
      rs_steer = fst (cycle_action B nd msg), rs_vel = snd (cycle_action B nd msg),
      rs_poses = [],
      rs_ref = (replicate (nat (N_SIM nd + 1)) zero_state)[0 := cycle_row0 B nd msg],
      rs_trace = [PolicyRun (cycle_obs nd msg),
                  EnvReset (pos_x msg, pos_y msg, cycle_yaw msg)]\<rparr>"

text \<open>
  \<^verbatim>\<open>ref_traj\<close> when the loop has ended (before the slice of line 185), and the payload of
  the last trajectory message of a trace.
\<close>

definition cycle_ref_traj ::
  "'sim backends \<Rightarrow> node \<Rightarrow> 'sim \<Rightarrow> odometry \<Rightarrow> mppi_state list" where
  "cycle_ref_traj B nd sim msg =
     rs_ref (snd (rollout B (SCAN_INDEX nd) (nat (N_SIM nd)) 0 (cycle_start B nd sim msg)))"

fun published_traj :: "event list \<Rightarrow> mppi_state list option" where
  "published_traj [] = None"
| "published_traj (TrajPublish t # es) =
     (case published_traj es of None \<Rightarrow> Some t | Some t' \<Rightarrow> Some t')"
| "published_traj (e # es) = published_traj es"

text \<open>
  The rollout as section 4.4 of the specification words it, for comparison with the loop of
  the source: \<open>n\<close> times, advance the simulator one step with the last computed action,
  take pose, velocity and scan from the result, compute the slip angle from the action just
  used, and run the inference adapter on that observation to obtain the next action. The
  result is the list of calls made, in order, and the simulator reached.
\<close>

fun spec_rollout ::
  "'sim backends \<Rightarrow> nat list \<Rightarrow> nat \<Rightarrow> 'sim \<Rightarrow> real \<times> real \<Rightarrow> event list \<times> 'sim" where
  "spec_rollout B idx 0 s a = ([], s)"
| "spec_rollout B idx (Suc n) s a =
     (let r = env_step B a s;
          so = fst r;
          ob = \<lparr>obs_scan = map (\<lambda>i. scans so ! i) idx,
                obs_pose = (poses_x so, poses_y so, Some (poses_theta so)),
                obs_vel = (linear_vels_x so, linear_vels_y so, ang_vels_z so),
                obs_heading = (fst a, get_beta (fst a))\<rparr>;
          rest = spec_rollout B idx n (snd r) (run_model (policy B) ob)
      in (EnvStep a # PolicyRun ob # fst rest, snd rest))"

subsection \<open>Example scenarios\<close>

text \<open>
  The end-to-end scenario of the specification: pose \<open>(0, 0, 0)\<close>, velocity \<open>(1, 0, 0)\<close>,
  every scan reading 10, horizon 2. The policy always asks for more than full steering and
  half speed; the simulator counts its steps, moves the car one unit along x per step and
  returns 1080 readings of 10.
\<close>

definition scenario_msg :: odometry where
  "scenario_msg =
     \<lparr>pos_x = 0, pos_y = 0, pos_z = 0, ori_x = 0, ori_y = 0, ori_z = 0, ori_w = 1,
      lin_x = 1, lin_y = 0, lin_z = 0, ang_x = 0, ang_y = 0, ang_z = 0\<rparr>"

definition scenario_backends :: "nat backends" where
  "scenario_backends =
     \<lparr>policy = (\<lambda>ob. (2, 1 / 2)),
      env_reset = (\<lambda>p s. 0),
      env_step = (\<lambda>a s. (\<lparr>scans = replicate 1080 10, poses_x = real (s + 1), poses_y = 0,
                            poses_theta = 0, linear_vels_x = 1, linear_vels_y = 0,
                            ang_vels_z = 0\<rparr>, s + 1))\<rparr>"

text \<open>
  The same simulator returning as many readings as there are beams configured (two), as
  the environment is asked to at start-up (\<^verbatim>\<open>"num_beams": N_BEAMS\<close>).
\<close>

definition scenario_backends_short :: "nat backends" where
  "scenario_backends_short =
     \<lparr>policy = (\<lambda>ob. (2, 1 / 2)),
      env_reset = (\<lambda>p s. 0),
      env_step = (\<lambda>a s. (\<lparr>scans = replicate 2 10, poses_x = real (s + 1), poses_y = 0,
                            poses_theta = 0, linear_vels_x = 1, linear_vels_y = 0,
                            ang_vels_z = 0\<rparr>, s + 1))\<rparr>"

text \<open>Horizon 2 with equal time steps, and horizon 8 with a ratio of 4; two beams.\<close>

definition scenario_cfg :: config where
  "scenario_cfg =
     \<lparr>num_scans = 2, n_steps = 2, sim_time_step = 0.025, rl_sim_time_step = 0.025,
      use_mppi = True\<rparr>"

definition scenario_cfg8 :: config where
  "scenario_cfg8 =
     \<lparr>num_scans = 2, n_steps = 2, sim_time_step = 0.1, rl_sim_time_step = 0.025,
      use_mppi = True\<rparr>"

text \<open>The nodes that \<open>init\<close> builds from these configurations.\<close>

definition scenario_node :: node where
  "scenario_node =
     \<lparr>pose = (0, 0, Some 0), vels = (0, 0, 0), heading = (0, 0), SCAN_INDEX = [0, 540],
      laser_scan = [10, 10], N_SIM = 2, DRIVE = False, cfg = scenario_cfg\<rparr>"

definition scenario_node8 :: node where
  "scenario_node8 =
     \<lparr>pose = (0, 0, Some 0), vels = (0, 0, 0), heading = (0, 0), SCAN_INDEX = [0, 540],
      laser_scan = [10, 10], N_SIM = 8, DRIVE = False, cfg = scenario_cfg8\<rparr>"

text \<open>A full scan of 1080 readings, and one of 540 readings, with limits 0.1 and 30.\<close>

definition scenario_scan :: "nat \<Rightarrow> laser_scan_msg" where
  "scenario_scan n =
     \<lparr>range_min = 0.1, range_max = 30, angle_min = - 2.35, angle_max = 2.35,
      angle_increment = 0.00435, ranges = replicate n 50\<rparr>"

section \<open>Properties\<close>

subsection \<open>Clipping and wrapping\<close>

lemma clip_bounds: "lo \<le> hi \<Longrightarrow> lo \<le> clip lo hi x \<and> clip lo hi x \<le> hi"
  by (simp add: clip_def min_def max_def)

lemma clip_idem: "lo \<le> hi \<Longrightarrow> clip lo hi (clip lo hi x) = clip lo hi x"
  by (simp add: clip_def min_def max_def)

lemma clip_unit_scaled:
  assumes "0 \<le> m"
  shows "- m \<le> clip (- 1) 1 r * m \<and> clip (- 1) 1 r * m \<le> m"
proof -
  have b: "- 1 \<le> clip (- 1) 1 r \<and> clip (- 1) 1 r \<le> 1"
    using clip_bounds [of "- 1" 1 r] by simp
  from b assms have "clip (- 1) 1 r * m \<le> 1 * m"
    by (intro mult_right_mono) simp_all
  moreover from b assms have "(- 1) * m \<le> clip (- 1) 1 r * m"
    by (intro mult_right_mono) simp_all
  ultimately show ?thesis by simp
qed

text \<open>
  Claim C4. Whatever the policy returns, the action of the inference adapter has its steer
  within \<open>[-0.4189, 0.4189]\<close> and its speed within \<open>[-4, 4]\<close>: each raw component is
  clipped to \<open>[-1, 1]\<close> and multiplied by its maximum. Clipping is idempotent: clipping a
  clipped component to \<open>[-1, 1]\<close> again, or the action to its physical bounds, changes
  nothing.
\<close>

theorem run_model_within_bounds:
  "- 0.4189 \<le> fst (run_model pol ob) \<and> fst (run_model pol ob) \<le> 0.4189
   \<and> - 4 \<le> snd (run_model pol ob) \<and> snd (run_model pol ob) \<le> 4
   \<and> fst (run_model pol ob) = clip (- 1) 1 (fst (pol ob)) * 0.4189
   \<and> snd (run_model pol ob) = clip (- 1) 1 (snd (pol ob)) * 4
   \<and> clip (- 1) 1 (clip (- 1) 1 (fst (pol ob))) = clip (- 1) 1 (fst (pol ob))
   \<and> clip (- 1) 1 (clip (- 1) 1 (snd (pol ob))) = clip (- 1) 1 (snd (pol ob))
   \<and> clip (- 0.4189) 0.4189 (fst (run_model pol ob)) = fst (run_model pol ob)
   \<and> clip (- 4) 4 (snd (run_model pol ob)) = snd (run_model pol ob)"
proof -
  have s: "fst (run_model pol ob) = clip (- 1) 1 (fst (pol ob)) * 0.4189"
    and v: "snd (run_model pol ob) = clip (- 1) 1 (snd (pol ob)) * 4"
    by (simp_all add: run_model_def CONTROL_MAX_def Let_def)
  have sb: "- 0.4189 \<le> fst (run_model pol ob) \<and> fst (run_model pol ob) \<le> 0.4189"
    using clip_unit_scaled [of "0.4189" "fst (pol ob)"] s by simp
  have vb: "- 4 \<le> snd (run_model pol ob) \<and> snd (run_model pol ob) \<le> 4"
    using clip_unit_scaled [of 4 "snd (pol ob)"] v by simp
  have i1: "clip (- 1) 1 (clip (- 1) 1 (fst (pol ob))) = clip (- 1) 1 (fst (pol ob))"
    and i2: "clip (- 1) 1 (clip (- 1) 1 (snd (pol ob))) = clip (- 1) 1 (snd (pol ob))"
    by (simp_all add: clip_idem)
  have c1: "clip (- 0.4189) 0.4189 (fst (run_model pol ob)) = fst (run_model pol ob)"
    using sb by (simp add: clip_def min_def max_def)
  have c2: "clip (- 4) 4 (snd (run_model pol ob)) = snd (run_model pol ob)"
    using vb by (simp add: clip_def min_def max_def)
  show ?thesis using s v sb vb i1 i2 c1 c2 by blast
qed

theorem run_model_within_bounds_witness:
  "fst (run_model (\<lambda>ob. (1000, - 1000))
          \<lparr>obs_scan = [10, 10], obs_pose = (0, 0, Some 0), obs_vel = (1, 0, 0),
           obs_heading = (0, 0)\<rparr>) = 0.4189
   \<and> snd (run_model (\<lambda>ob. (1000, - 1000))
          \<lparr>obs_scan = [10, 10], obs_pose = (0, 0, Some 0), obs_vel = (1, 0, 0),
           obs_heading = (0, 0)\<rparr>) = - 4"
  using run_model_within_bounds [of "\<lambda>ob. (1000, - 1000)"
          "\<lparr>obs_scan = [10, 10], obs_pose = (0, 0, Some 0), obs_vel = (1, 0, 0),
           obs_heading = (0, 0)\<rparr>"]
  by (simp add: clip_def)

lemma py_mod_range:
  assumes "0 < y"
  shows "0 \<le> py_mod x y \<and> py_mod x y < y"
proof -
  have a: "of_int \<lfloor>x / y\<rfloor> * y \<le> x"
    using assms by (rule floor_divide_lower)
  have b: "x < (of_int \<lfloor>x / y\<rfloor> + 1) * y"
    using assms by (rule floor_divide_upper)
  show ?thesis using a b by (simp add: py_mod_def algebra_simps)
qed

lemma wrap_three_half_pi: "py_mod (3 * pi / 2 + pi) (2 * pi) - pi = - (pi / 2)"
proof -
  have "(3 * pi / 2 + pi) / (2 * pi) = 5 / 4"
    by (simp add: field_simps)
  then have "\<lfloor>(3 * pi / 2 + pi) / (2 * pi)\<rfloor> = 1" by simp
  then show ?thesis by (simp add: py_mod_def)
qed

lemma wrap_pi: "py_mod (pi + pi) (2 * pi) - pi = - pi"
proof -
  have "(pi + pi) / (2 * pi) = 1" by simp
  then have "\<lfloor>(pi + pi) / (2 * pi)\<rfloor> = 1" by simp
  then show ?thesis by (simp add: py_mod_def)
qed

text \<open>
  Claim C2, amended. The wrapped yaw of a formatted state is
  \<open>((yaw + \<pi>) mod 2\<pi>) - \<pi>\<close>; it differs from the yaw by a multiple of \<open>2\<pi>\<close> and
  lies in the half-open interval \<open>[-\<pi>, \<pi>)\<close>, closed at \<open>-\<pi>\<close> and open at \<open>\<pi>\<close>. A yaw
  of \<open>3\<pi>/2\<close> is wrapped to \<open>-\<pi>/2\<close>.
\<close>

theorem yaw_wrapped_range:
  "\<exists>v. st_yaw_wrapped (to_mppi_state x y (Some yaw) yaw_rate vx vy delta) = Some v
       \<and> v = py_mod (yaw + pi) (2 * pi) - pi
       \<and> - pi \<le> v \<and> v < pi
       \<and> (\<exists>k::int. v = yaw - 2 * pi * of_int k)
       \<and> st_yaw_wrapped (to_mppi_state x y (Some (3 * pi / 2)) yaw_rate vx vy delta)
           = Some (- (pi / 2))"
proof -
  let ?v = "py_mod (yaw + pi) (2 * pi) - pi"
  have r: "0 \<le> py_mod (yaw + pi) (2 * pi) \<and> py_mod (yaw + pi) (2 * pi) < 2 * pi"
    by (rule py_mod_range) simp
  have k: "?v = yaw - 2 * pi * of_int \<lfloor>(yaw + pi) / (2 * pi)\<rfloor>"
    by (simp add: py_mod_def)
  have "st_yaw_wrapped (to_mppi_state x y (Some yaw) yaw_rate vx vy delta) = Some ?v"
    by (simp add: to_mppi_state_def)
  moreover have "st_yaw_wrapped (to_mppi_state x y (Some (3 * pi / 2)) yaw_rate vx vy delta)
           = Some (- (pi / 2))"
    using wrap_three_half_pi by (simp add: to_mppi_state_def)
  ultimately show ?thesis using r k by force
qed

theorem yaw_wrapped_range_witness:
  "\<exists>v. st_yaw_wrapped (to_mppi_state 0 0 (Some 0) 0 1 0 0) = Some v \<and> - pi \<le> v \<and> v < pi"
  using yaw_wrapped_range [of 0 0 0 0 1 0 0] by blast

text \<open>
  The claim as written gives the interval \<open>(-\<pi>, \<pi>]\<close>. A yaw of \<open>\<pi>\<close> (what the
  callback computes for \<open>w = 0\<close>) is wrapped to \<open>-\<pi>\<close>, outside that interval.
\<close>

theorem yaw_wrapped_pi_counterexample:
  "st_yaw_wrapped (to_mppi_state 0 0 (Some pi) 0 0 0 0) = Some (- pi)
   \<and> - pi \<notin> {- pi <.. pi}"
  using wrap_pi by (simp add: to_mppi_state_def)

subsection \<open>The rollout loop\<close>

lemma take_idx_Inr:
  "list_all (\<lambda>i. i < length vs) idx \<Longrightarrow> take_idx vs idx = Inr (map (\<lambda>i. vs ! i) idx)"
  by (simp add: take_idx_def)

lemma rollout_step_ref_length:
  "length (rs_ref (snd (rollout_step B idx i st))) = length (rs_ref st)"
  by (simp add: rollout_step_def Let_def split: sum.splits)

lemma rollout_step_ref_prefix:
  "j \<le> i \<Longrightarrow> rs_ref (snd (rollout_step B idx i st)) ! j = rs_ref st ! j"
  by (simp add: rollout_step_def Let_def split: sum.splits)

lemma rollout_step_rows:
  assumes "\<forall>r\<in>set (rs_ref st). \<exists>vy. st_beta r = np_arctan2 vy (st_vx r)"
  shows "\<forall>r\<in>set (rs_ref (snd (rollout_step B idx i st))). \<exists>vy. st_beta r = np_arctan2 vy (st_vx r)"
proof -
  have new: "\<exists>vy. st_beta (to_mppi_state x y yaw yr vx vy' d) = np_arctan2 vy (st_vx (to_mppi_state x y yaw yr vx vy' d))"
    for x y yaw yr vx vy' d
    by (auto simp: to_mppi_state_def)
  have upd: "\<forall>r\<in>set ((rs_ref st)[k := to_mppi_state x y yaw yr vx vy' d]). \<exists>vy. st_beta r = np_arctan2 vy (st_vx r)"
    for k x y yaw yr vx vy' d
    using assms new [of x y yaw yr vx vy' d] set_update_subset_insert [of "rs_ref st" k]
    by blast
  show ?thesis
    using assms upd by (simp add: rollout_step_def Let_def split: sum.splits)
qed

lemma rollout_step_trace:
  "\<exists>evs. rs_trace (snd (rollout_step B idx i st)) = rs_trace st @ evs
        \<and> (\<forall>e\<in>set evs. is_env_step e \<or>
              (\<exists>ob. e = PolicyRun ob \<and> snd (obs_heading ob) = get_beta (fst (obs_heading ob))))"
  by (simp add: rollout_step_def Let_def split: sum.splits)

lemma rollout_step_ok:
  assumes "\<forall>a s. list_all (\<lambda>i. i < length (scans (fst (env_step B a s)))) idx"
    and "i + 1 < length (rs_ref st)"
  shows "fst (rollout_step B idx i st) = None"
    and "\<exists>a ob. rs_trace (snd (rollout_step B idx i st)) = rs_trace st @ [EnvStep a, PolicyRun ob]"
    and "length (rs_poses (snd (rollout_step B idx i st))) = length (rs_poses st) + 1"
proof -
  let ?so = "fst (env_step B (rs_steer st, rs_vel st) (rs_sim st))"
  have t: "take_idx (scans ?so) idx = Inr (map (\<lambda>i. scans ?so ! i) idx)"
    using assms(1) by (simp add: take_idx_Inr)
  show "fst (rollout_step B idx i st) = None"
    using t assms(2) by (simp add: rollout_step_def Let_def)
  show "\<exists>a ob. rs_trace (snd (rollout_step B idx i st)) = rs_trace st @ [EnvStep a, PolicyRun ob]"
    using t assms(2) by (simp add: rollout_step_def Let_def)
  show "length (rs_poses (snd (rollout_step B idx i st))) = length (rs_poses st) + 1"
    using t assms(2) by (simp add: rollout_step_def Let_def)
qed

lemma rollout_ref_length:
  "length (rs_ref (snd (rollout B idx n i st))) = length (rs_ref st)"
  by (induction n arbitrary: i st)
     (simp_all add: Let_def rollout_step_ref_length split: option.splits)

lemma rollout_ref_prefix:
  "j \<le> i \<Longrightarrow> rs_ref (snd (rollout B idx n i st)) ! j = rs_ref st ! j"
  by (induction n arbitrary: i st)
     (simp_all add: Let_def rollout_step_ref_prefix split: option.splits)

lemma rollout_rows:
  "\<forall>r\<in>set (rs_ref st). \<exists>vy. st_beta r = np_arctan2 vy (st_vx r) \<Longrightarrow>
   \<forall>r\<in>set (rs_ref (snd (rollout B idx n i st))). \<exists>vy. st_beta r = np_arctan2 vy (st_vx r)"
proof (induction n arbitrary: i st)
  case 0
  then show ?case by simp
next
  case (Suc n)
  note step = rollout_step_rows [OF Suc.prems, of B idx i]
  show ?case
  proof (cases "fst (rollout_step B idx i st)")
    case None
    then show ?thesis using Suc.IH [OF step] by (simp add: Let_def)
  next
    case (Some e)
    then show ?thesis using step by (simp add: Let_def)
  qed
qed

lemma rollout_trace:
  "\<exists>evs. rs_trace (snd (rollout B idx n i st)) = rs_trace st @ evs
        \<and> (\<forall>e\<in>set evs. is_env_step e \<or>
              (\<exists>ob. e = PolicyRun ob \<and> snd (obs_heading ob) = get_beta (fst (obs_heading ob))))"
proof (induction n arbitrary: i st)
  case 0
  show ?case by simp
next
  case (Suc n)
  obtain evs1 where e1: "rs_trace (snd (rollout_step B idx i st)) = rs_trace st @ evs1"
    and p1: "\<forall>e\<in>set evs1. is_env_step e \<or>
              (\<exists>ob. e = PolicyRun ob \<and> snd (obs_heading ob) = get_beta (fst (obs_heading ob)))"
    using rollout_step_trace [of B idx i st] by blast
  show ?case
  proof (cases "fst (rollout_step B idx i st)")
    case None
    obtain evs2 where e2: "rs_trace (snd (rollout B idx n (i + 1) (snd (rollout_step B idx i st))))
          = rs_trace (snd (rollout_step B idx i st)) @ evs2"
      and p2: "\<forall>e\<in>set evs2. is_env_step e \<or>
              (\<exists>ob. e = PolicyRun ob \<and> snd (obs_heading ob) = get_beta (fst (obs_heading ob)))"
      using Suc.IH [of "i + 1" "snd (rollout_step B idx i st)"] by blast
    have "rs_trace (snd (rollout B idx (Suc n) i st)) = rs_trace st @ (evs1 @ evs2)"
      using None e1 e2 by (simp add: Let_def)
    moreover have "\<forall>e\<in>set (evs1 @ evs2). is_env_step e \<or>
              (\<exists>ob. e = PolicyRun ob \<and> snd (obs_heading ob) = get_beta (fst (obs_heading ob)))"
      using p1 p2 by auto
    ultimately show ?thesis by blast
  next
    case (Some e)
    then have "rs_trace (snd (rollout B idx (Suc n) i st)) = rs_trace st @ evs1"
      using e1 by (simp add: Let_def)
    with p1 show ?thesis by blast
  qed
qed

lemma rollout_ok:
  assumes "\<forall>a s. list_all (\<lambda>i. i < length (scans (fst (env_step B a s)))) idx"
  shows "i + n < length (rs_ref st) \<Longrightarrow>
         fst (rollout B idx n i st) = None
         \<and> length (rs_poses (snd (rollout B idx n i st))) = length (rs_poses st) + n
         \<and> (\<exists>evs. rs_trace (snd (rollout B idx n i st)) = rs_trace st @ evs
              \<and> count_events is_policy_run evs = n
              \<and> count_events is_env_step evs = n
              \<and> length evs = 2 * n)"
proof (induction n arbitrary: i st)
  case 0
  show ?case by (simp add: count_events_def)
next
  case (Suc n)
  let ?st' = "snd (rollout_step B idx i st)"
  have i1: "i + 1 < length (rs_ref st)" using Suc.prems by simp
  note ok = rollout_step_ok [OF assms i1]
  obtain a ob where e1: "rs_trace ?st' = rs_trace st @ [EnvStep a, PolicyRun ob]"
    using ok(2) by blast
  have len: "(i + 1) + n < length (rs_ref ?st')"
    using Suc.prems by (simp add: rollout_step_ref_length)
  from Suc.IH [OF len] obtain evs where
    n: "fst (rollout B idx n (i + 1) ?st') = None"
    and ps: "length (rs_poses (snd (rollout B idx n (i + 1) ?st'))) = length (rs_poses ?st') + n"
    and e2: "rs_trace (snd (rollout B idx n (i + 1) ?st')) = rs_trace ?st' @ evs"
    and c: "count_events is_policy_run evs = n" "count_events is_env_step evs = n"
       "length evs = 2 * n"
    by blast
  have unf: "rollout B idx (Suc n) i st = rollout B idx n (i + 1) ?st'"
    using ok(1) by (simp add: Let_def)
  have "rs_trace (snd (rollout B idx (Suc n) i st)) = rs_trace st @ ([EnvStep a, PolicyRun ob] @ evs)"
    using unf e1 e2 by simp
  moreover have "count_events is_policy_run ([EnvStep a, PolicyRun ob] @ evs) = Suc n"
    "count_events is_env_step ([EnvStep a, PolicyRun ob] @ evs) = Suc n"
    "length ([EnvStep a, PolicyRun ob] @ evs) = 2 * Suc n"
    using c by (simp_all add: count_events_def)
  ultimately show ?case using unf n ps ok(3) by (metis add_Suc_right Suc_eq_plus1 add.assoc add.commute)
qed

subsection \<open>The branches of the odometry callback\<close>

lemma scenario_init: "init scenario_cfg = Inr scenario_node"
proof -
  have "[0..<2] = [0, Suc 0]" by (simp add: upt_rec)
  moreover have "replicate 2 (10::real) = [10, 10]" by (simp add: numeral_2_eq_2)
  ultimately show ?thesis
    by (simp add: init_def scan_index_def scenario_cfg_def scenario_node_def py_int_def Let_def)
qed

lemma scenario_init8: "init scenario_cfg8 = Inr scenario_node8"
proof -
  have "[0..<2] = [0, Suc 0]" by (simp add: upt_rec)
  moreover have "replicate 2 (10::real) = [10, 10]" by (simp add: numeral_2_eq_2)
  ultimately show ?thesis
    by (simp add: init_def scan_index_def scenario_cfg8_def scenario_node8_def py_int_def Let_def)
qed

lemma pose_callback_negative:
  "N_SIM nd + 1 < 0 \<Longrightarrow>
   pose_callback B nd sim msg
     = \<lparr>oc_err = Some ValueError, oc_node = nd, oc_sim = sim, oc_trace = []\<rparr>"
  by (simp add: pose_callback_def)

lemma pose_callback_empty:
  "N_SIM nd + 1 = 0 \<Longrightarrow>
   pose_callback B nd sim msg
     = \<lparr>oc_err = Some IndexError, oc_node = cycle_node B nd msg, oc_sim = sim,
        oc_trace = [PolicyRun (cycle_obs nd msg)]\<rparr>"
  by (simp add: pose_callback_def Let_def cycle_node_def cycle_obs_def cycle_action_def cycle_yaw_def)

lemma pose_callback_drive:
  "0 \<le> N_SIM nd \<Longrightarrow> DRIVE nd \<Longrightarrow>
   pose_callback B nd sim msg
     = \<lparr>oc_err = None, oc_node = cycle_node B nd msg, oc_sim = sim,
        oc_trace = [PolicyRun (cycle_obs nd msg),
                    DrivePublish (snd (cycle_action B nd msg)) (fst (cycle_action B nd msg))]\<rparr>"
  by (simp add: pose_callback_def Let_def cycle_node_def cycle_obs_def cycle_action_def cycle_yaw_def)

lemma pose_callback_plan:
  "0 \<le> N_SIM nd \<Longrightarrow> \<not> DRIVE nd \<Longrightarrow>
   pose_callback B nd sim msg
     = (let r = rollout B (SCAN_INDEX nd) (nat (N_SIM nd)) 0 (cycle_start B nd sim msg);
            st = snd r
        in case fst r of
             Some e \<Rightarrow> \<lparr>oc_err = Some e, oc_node = cycle_node B nd msg, oc_sim = rs_sim st,
                         oc_trace = rs_trace st\<rparr>
           | None \<Rightarrow>
               let tr1 = rs_trace st @ [VizPublish (visualize_future_pose (rs_poses st))]
               in if rl_sim_time_step (cfg nd) = 0 then
                    \<lparr>oc_err = Some ZeroDivisionError, oc_node = cycle_node B nd msg,
                     oc_sim = rs_sim st, oc_trace = tr1\<rparr>
                  else
                    case slice_step (py_int (sim_time_step (cfg nd) / rl_sim_time_step (cfg nd)))
                           (rs_ref st) of
                      Inl e \<Rightarrow> \<lparr>oc_err = Some e, oc_node = cycle_node B nd msg,
                                  oc_sim = rs_sim st, oc_trace = tr1\<rparr>
                    | Inr out \<Rightarrow> \<lparr>oc_err = None, oc_node = cycle_node B nd msg,
                                    oc_sim = rs_sim st, oc_trace = tr1 @ [TrajPublish out]\<rparr>)"
  unfolding pose_callback_def Let_def cycle_node_def cycle_obs_def cycle_action_def
      cycle_yaw_def cycle_start_def cycle_row0_def
  by (simp cong: option.case_cong sum.case_cong)

lemma published_traj_append:
  "published_traj (tr @ [TrajPublish out]) = Some out"
  by (induction tr rule: published_traj.induct) simp_all

lemma published_traj_none:
  "count_events is_traj_publish tr = 0 \<Longrightarrow> published_traj tr = None"
  by (induction tr rule: published_traj.induct) (simp_all add: count_events_def)

lemma cycle_start_length:
  "length (rs_ref (cycle_start B nd sim msg)) = nat (N_SIM nd + 1)"
  by (simp add: cycle_start_def)

lemma cycle_ref_traj_length:
  "length (cycle_ref_traj B nd sim msg) = nat (N_SIM nd + 1)"
  by (simp add: cycle_ref_traj_def rollout_ref_length cycle_start_length)

lemma cycle_ref_traj_row0:
  "0 \<le> N_SIM nd \<Longrightarrow> cycle_ref_traj B nd sim msg ! 0 = cycle_row0 B nd msg"
  by (simp add: cycle_ref_traj_def rollout_ref_prefix cycle_start_def)

lemma slice_step_positive:
  assumes "0 < k"
  shows "slice_step k xs = Inr (map (\<lambda>j. xs ! (j * nat k)) [0 ..< (length xs + nat k - 1) div nat k])"
  using assms by (simp add: slice_step_def)

lemma slice_count:
  assumes "0 < (k::nat)"
  shows "(Suc n + k - 1) div k = n div k + 1"
proof -
  have "(Suc n + k - 1) div k = (n + k) div k" by simp
  also have "\<dots> = n div k + 1" using assms by simp
  finally show ?thesis .
qed

lemma slice_index_in_range:
  assumes "0 < (k::nat)" and "j < (l + k - 1) div k"
  shows "j * k < l"
proof -
  have "Suc j \<le> (l + k - 1) div k" using assms(2) by simp
  then have "Suc j * k \<le> l + k - 1"
    using assms(1) by (simp add: less_eq_div_iff_mult_less_eq)
  then show ?thesis using assms(1) by simp
qed

lemma slice_step_subset:
  assumes "slice_step k xs = Inr out"
  shows "set out \<subseteq> set xs"
proof (cases "0 < k")
  case True
  then have o: "out = map (\<lambda>j. xs ! (j * nat k)) [0 ..< (length xs + nat k - 1) div nat k]"
    using assms by (simp add: slice_step_def)
  show ?thesis
  proof
    fix r assume "r \<in> set out"
    then obtain j where j: "j < (length xs + nat k - 1) div nat k" and r: "r = xs ! (j * nat k)"
      using o by auto
    have "j * nat k < length xs"
      using slice_index_in_range [OF _ j] True by simp
    then show "r \<in> set xs" using r by simp
  qed
next
  case False
  then have k0: "k \<noteq> 0" and kn: "k < 0" using assms by (auto simp: slice_step_def split: if_splits)
  then have o: "out = map (\<lambda>j. xs ! (length xs - 1 - j * nat (- k)))
               [0 ..< (length xs + nat (- k) - 1) div nat (- k)]"
    using assms by (simp add: slice_step_def)
  show ?thesis
  proof
    fix r assume "r \<in> set out"
    then obtain j where j: "j < (length xs + nat (- k) - 1) div nat (- k)"
      and r: "r = xs ! (length xs - 1 - j * nat (- k))"
      using o by auto
    have "j * nat (- k) < length xs"
      using slice_index_in_range [OF _ j] kn by simp
    then have "length xs - 1 - j * nat (- k) < length xs" by simp
    then show "r \<in> set xs" using r by simp
  qed
qed

lemma plan_rollout:
  assumes "0 \<le> N_SIM nd"
    and "\<forall>a s. list_all (\<lambda>i. i < length (scans (fst (env_step B a s)))) (SCAN_INDEX nd)"
  shows "\<exists>st evs.
           rollout B (SCAN_INDEX nd) (nat (N_SIM nd)) 0 (cycle_start B nd sim msg) = (None, st)
           \<and> rs_ref st = cycle_ref_traj B nd sim msg
           \<and> length (rs_poses st) = nat (N_SIM nd)
           \<and> rs_trace st = [PolicyRun (cycle_obs nd msg),
                            EnvReset (pos_x msg, pos_y msg, cycle_yaw msg)] @ evs
           \<and> count_events is_policy_run evs = nat (N_SIM nd)
           \<and> count_events is_env_step evs = nat (N_SIM nd)
           \<and> length evs = 2 * nat (N_SIM nd)"
proof -
  let ?r = "rollout B (SCAN_INDEX nd) (nat (N_SIM nd)) 0 (cycle_start B nd sim msg)"
  have len: "0 + nat (N_SIM nd) < length (rs_ref (cycle_start B nd sim msg))"
    using assms(1) by (simp add: cycle_start_length)
  from rollout_ok [OF assms(2) len] obtain evs where
    e: "fst ?r = None"
    and p: "length (rs_poses (snd ?r)) = length (rs_poses (cycle_start B nd sim msg)) + nat (N_SIM nd)"
    and t: "rs_trace (snd ?r) = rs_trace (cycle_start B nd sim msg) @ evs"
    and c: "count_events is_policy_run evs = nat (N_SIM nd)"
      "count_events is_env_step evs = nat (N_SIM nd)" "length evs = 2 * nat (N_SIM nd)"
    by blast
  have "?r = (None, snd ?r)" using e by (simp add: prod_eq_iff)
  moreover have "rs_ref (snd ?r) = cycle_ref_traj B nd sim msg"
    by (simp add: cycle_ref_traj_def)
  moreover have "length (rs_poses (snd ?r)) = nat (N_SIM nd)"
    using p by (simp add: cycle_start_def)
  moreover have "rs_trace (snd ?r) = [PolicyRun (cycle_obs nd msg),
                            EnvReset (pos_x msg, pos_y msg, cycle_yaw msg)] @ evs"
    using t by (simp add: cycle_start_def)
  ultimately show ?thesis using c by blast
qed

lemma plan_outcome:
  assumes "\<not> DRIVE nd" and "0 \<le> N_SIM nd"
    and "\<forall>a s. list_all (\<lambda>i. i < length (scans (fst (env_step (B :: 'sim backends) a s))))
           (SCAN_INDEX nd)"
  shows "\<exists>(st :: 'sim rollout_state) evs.
           count_events is_policy_run evs = nat (N_SIM nd)
           \<and> count_events is_env_step evs = nat (N_SIM nd)
           \<and> length evs = 2 * nat (N_SIM nd)
           \<and> length (rs_poses st) = nat (N_SIM nd)
           \<and> pose_callback B nd sim msg
             = \<lparr>oc_err =
                  (if rl_sim_time_step (cfg nd) = 0 then Some ZeroDivisionError
                   else case slice_step
                               (py_int (sim_time_step (cfg nd) / rl_sim_time_step (cfg nd)))
                               (cycle_ref_traj B nd sim msg) of
                          Inl e \<Rightarrow> Some e | Inr out \<Rightarrow> None),
                oc_node = cycle_node B nd msg,
                oc_sim = rs_sim st,
                oc_trace =
                  [PolicyRun (cycle_obs nd msg), EnvReset (pos_x msg, pos_y msg, cycle_yaw msg)]
                  @ evs @ [VizPublish (visualize_future_pose (rs_poses st))]
                  @ (if rl_sim_time_step (cfg nd) = 0 then []
                     else case slice_step
                                 (py_int (sim_time_step (cfg nd) / rl_sim_time_step (cfg nd)))
                                 (cycle_ref_traj B nd sim msg) of
                            Inl e \<Rightarrow> [] | Inr out \<Rightarrow> [TrajPublish out])\<rparr>"
proof -
  from plan_rollout [OF assms(2) assms(3), of sim msg] obtain st evs where
    r: "rollout B (SCAN_INDEX nd) (nat (N_SIM nd)) 0 (cycle_start B nd sim msg) = (None, st)"
    and f: "rs_ref st = cycle_ref_traj B nd sim msg"
    and p: "length (rs_poses st) = nat (N_SIM nd)"
    and t: "rs_trace st = [PolicyRun (cycle_obs nd msg),
                            EnvReset (pos_x msg, pos_y msg, cycle_yaw msg)] @ evs"
    and c: "count_events is_policy_run evs = nat (N_SIM nd)"
      "count_events is_env_step evs = nat (N_SIM nd)" "length evs = 2 * nat (N_SIM nd)"
    by blast
  have m: "pose_callback B nd sim msg
             = \<lparr>oc_err =
                  (if rl_sim_time_step (cfg nd) = 0 then Some ZeroDivisionError
                   else case slice_step
                               (py_int (sim_time_step (cfg nd) / rl_sim_time_step (cfg nd)))
                               (cycle_ref_traj B nd sim msg) of
                          Inl e \<Rightarrow> Some e | Inr out \<Rightarrow> None),
                oc_node = cycle_node B nd msg,
                oc_sim = rs_sim st,
                oc_trace =
                  [PolicyRun (cycle_obs nd msg), EnvReset (pos_x msg, pos_y msg, cycle_yaw msg)]
                  @ evs @ [VizPublish (visualize_future_pose (rs_poses st))]
                  @ (if rl_sim_time_step (cfg nd) = 0 then []
                     else case slice_step
                                 (py_int (sim_time_step (cfg nd) / rl_sim_time_step (cfg nd)))
                                 (cycle_ref_traj B nd sim msg) of
                            Inl e \<Rightarrow> [] | Inr out \<Rightarrow> [TrajPublish out])\<rparr>"
    unfolding pose_callback_plan [OF assms(2) assms(1)] r Let_def
    using f t by (simp split: sum.splits)
  show ?thesis
    by (rule exI [of _ st], rule exI [of _ evs]) (simp only: c p m simp_thms)
qed

lemma count_events_append:
  "count_events P (xs @ ys) = count_events P xs + count_events P ys"
  by (simp add: count_events_def)

lemma plan_general:
  assumes "\<not> DRIVE nd" and "0 \<le> N_SIM nd"
  shows "\<exists>evs fin.
           oc_trace (pose_callback B nd sim msg)
             = [PolicyRun (cycle_obs nd msg), EnvReset (pos_x msg, pos_y msg, cycle_yaw msg)]
               @ evs @ fin
           \<and> (\<forall>e\<in>set evs. is_env_step e \<or>
                 (\<exists>ob. e = PolicyRun ob \<and> snd (obs_heading ob) = get_beta (fst (obs_heading ob))))
           \<and> (fin = [] \<or> (\<exists>ms. fin = [VizPublish ms]) \<or>
               (\<exists>ms out. fin = [VizPublish ms, TrajPublish out]
                  \<and> slice_step (py_int (sim_time_step (cfg nd) / rl_sim_time_step (cfg nd)))
                       (cycle_ref_traj B nd sim msg) = Inr out))"
proof -
  let ?r = "rollout B (SCAN_INDEX nd) (nat (N_SIM nd)) 0 (cycle_start B nd sim msg)"
  let ?hd = "[PolicyRun (cycle_obs nd msg), EnvReset (pos_x msg, pos_y msg, cycle_yaw msg)]"
  let ?k = "py_int (sim_time_step (cfg nd) / rl_sim_time_step (cfg nd))"
  obtain evs where t: "rs_trace (snd ?r) = ?hd @ evs"
    and h: "\<forall>e\<in>set evs. is_env_step e \<or>
                 (\<exists>ob. e = PolicyRun ob \<and> snd (obs_heading ob) = get_beta (fst (obs_heading ob)))"
    using rollout_trace [of B "SCAN_INDEX nd" "nat (N_SIM nd)" 0 "cycle_start B nd sim msg"]
    by (auto simp: cycle_start_def)
  have f: "rs_ref (snd ?r) = cycle_ref_traj B nd sim msg"
    by (simp add: cycle_ref_traj_def)
  note pc = pose_callback_plan [OF assms(2) assms(1), of B sim msg]
  consider (err) e where "fst ?r = Some e"
    | (zero) "fst ?r = None" "rl_sim_time_step (cfg nd) = 0"
    | (bad) e where "fst ?r = None" "rl_sim_time_step (cfg nd) \<noteq> 0"
        "slice_step ?k (cycle_ref_traj B nd sim msg) = Inl e"
    | (ok) out where "fst ?r = None" "rl_sim_time_step (cfg nd) \<noteq> 0"
        "slice_step ?k (cycle_ref_traj B nd sim msg) = Inr out"
    by (cases "fst ?r"; cases "slice_step ?k (cycle_ref_traj B nd sim msg)"; cases "rl_sim_time_step (cfg nd) = 0") auto
  then show ?thesis
  proof cases
    case err
    then have "oc_trace (pose_callback B nd sim msg) = ?hd @ evs @ []"
      using t by (simp add: pc Let_def)
    with h show ?thesis by blast
  next
    case zero
    then have "oc_trace (pose_callback B nd sim msg)
        = ?hd @ evs @ [VizPublish (visualize_future_pose (rs_poses (snd ?r)))]"
      using t by (simp add: pc Let_def)
    with h show ?thesis by blast
  next
    case bad
    then have "oc_trace (pose_callback B nd sim msg)
        = ?hd @ evs @ [VizPublish (visualize_future_pose (rs_poses (snd ?r)))]"
      using t f by (simp add: pc Let_def)
    with h show ?thesis by blast
  next
    case ok
    then have "oc_trace (pose_callback B nd sim msg)
        = ?hd @ evs @ [VizPublish (visualize_future_pose (rs_poses (snd ?r))), TrajPublish out]"
      using t f by (simp add: pc Let_def)
    with h ok(3) show ?thesis by blast
  qed
qed

subsection \<open>Calls per cycle and resampling\<close>

lemma scenario_scans_ok:
  "\<forall>a s. list_all (\<lambda>i. i < length (scans (fst (env_step scenario_backends a s)))) [0, 540]"
  by (simp add: scenario_backends_def)

lemma spec_rollout_counts:
  "count_events is_policy_run (fst (spec_rollout B idx n s a)) = n
   \<and> count_events is_env_step (fst (spec_rollout B idx n s a)) = n
   \<and> count_events is_env_reset (fst (spec_rollout B idx n s a)) = 0"
  by (induction n arbitrary: s a) (simp_all add: Let_def count_events_def)

lemma rollout_step_refines:
  assumes "\<forall>a s. list_all (\<lambda>i. i < length (scans (fst (env_step B a s)))) idx"
    and "i + 1 < length (rs_ref st)"
  shows "rs_trace (snd (rollout_step B idx i st))
         = rs_trace st @
           [EnvStep (rs_steer st, rs_vel st),
            PolicyRun \<lparr>obs_scan = map (\<lambda>i. scans (fst (env_step B (rs_steer st, rs_vel st) (rs_sim st))) ! i) idx,
                obs_pose = (poses_x (fst (env_step B (rs_steer st, rs_vel st) (rs_sim st))),
                            poses_y (fst (env_step B (rs_steer st, rs_vel st) (rs_sim st))),
                            Some (poses_theta (fst (env_step B (rs_steer st, rs_vel st) (rs_sim st))))),
                obs_vel = (linear_vels_x (fst (env_step B (rs_steer st, rs_vel st) (rs_sim st))),
                           linear_vels_y (fst (env_step B (rs_steer st, rs_vel st) (rs_sim st))),
                           ang_vels_z (fst (env_step B (rs_steer st, rs_vel st) (rs_sim st)))),
                obs_heading = (rs_steer st, get_beta (rs_steer st))\<rparr>]"
    and "rs_sim (snd (rollout_step B idx i st)) = snd (env_step B (rs_steer st, rs_vel st) (rs_sim st))"
    and "(rs_steer (snd (rollout_step B idx i st)), rs_vel (snd (rollout_step B idx i st)))
         = run_model (policy B)
            \<lparr>obs_scan = map (\<lambda>i. scans (fst (env_step B (rs_steer st, rs_vel st) (rs_sim st))) ! i) idx,
                obs_pose = (poses_x (fst (env_step B (rs_steer st, rs_vel st) (rs_sim st))),
                            poses_y (fst (env_step B (rs_steer st, rs_vel st) (rs_sim st))),
                            Some (poses_theta (fst (env_step B (rs_steer st, rs_vel st) (rs_sim st))))),
                obs_vel = (linear_vels_x (fst (env_step B (rs_steer st, rs_vel st) (rs_sim st))),
                           linear_vels_y (fst (env_step B (rs_steer st, rs_vel st) (rs_sim st))),
                           ang_vels_z (fst (env_step B (rs_steer st, rs_vel st) (rs_sim st)))),
                obs_heading = (rs_steer st, get_beta (rs_steer st))\<rparr>"
proof -
  let ?so = "fst (env_step B (rs_steer st, rs_vel st) (rs_sim st))"
  have t: "take_idx (scans ?so) idx = Inr (map (\<lambda>i. scans ?so ! i) idx)"
    using assms(1) by (simp add: take_idx_Inr)
  show "rs_trace (snd (rollout_step B idx i st))
         = rs_trace st @
           [EnvStep (rs_steer st, rs_vel st),
            PolicyRun \<lparr>obs_scan = map (\<lambda>i. scans ?so ! i) idx,
                obs_pose = (poses_x ?so, poses_y ?so, Some (poses_theta ?so)),
                obs_vel = (linear_vels_x ?so, linear_vels_y ?so, ang_vels_z ?so),
                obs_heading = (rs_steer st, get_beta (rs_steer st))\<rparr>]"
    using t assms(2) by (simp add: rollout_step_def Let_def)
  show "rs_sim (snd (rollout_step B idx i st)) = snd (env_step B (rs_steer st, rs_vel st) (rs_sim st))"
    using t assms(2) by (simp add: rollout_step_def Let_def)
  show "(rs_steer (snd (rollout_step B idx i st)), rs_vel (snd (rollout_step B idx i st)))
         = run_model (policy B)
            \<lparr>obs_scan = map (\<lambda>i. scans ?so ! i) idx,
                obs_pose = (poses_x ?so, poses_y ?so, Some (poses_theta ?so)),
                obs_vel = (linear_vels_x ?so, linear_vels_y ?so, ang_vels_z ?so),
                obs_heading = (rs_steer st, get_beta (rs_steer st))\<rparr>"
    using t assms(2) by (simp add: rollout_step_def Let_def)
qed

lemma rollout_refines:
  assumes "\<forall>a s. list_all (\<lambda>i. i < length (scans (fst (env_step B a s)))) idx"
  shows "i + n < length (rs_ref st) \<Longrightarrow>
         rs_trace (snd (rollout B idx n i st))
           = rs_trace st @ fst (spec_rollout B idx n (rs_sim st) (rs_steer st, rs_vel st))
         \<and> rs_sim (snd (rollout B idx n i st))
           = snd (spec_rollout B idx n (rs_sim st) (rs_steer st, rs_vel st))"
proof (induction n arbitrary: i st)
  case 0
  show ?case by simp
next
  case (Suc n)
  let ?st' = "snd (rollout_step B idx i st)"
  have i1: "i + 1 < length (rs_ref st)" using Suc.prems by simp
  note ok = rollout_step_ok(1) [OF assms i1]
  note rf = rollout_step_refines [OF assms i1]
  have len: "(i + 1) + n < length (rs_ref ?st')"
    using Suc.prems by (simp add: rollout_step_ref_length)
  note ih = Suc.IH [OF len]
  have unf: "rollout B idx (Suc n) i st = rollout B idx n (i + 1) ?st'"
    using ok by (simp add: Let_def)
  show ?case
    unfolding unf using ih rf by (simp add: Let_def)
qed

lemma take_idx_error: "take_idx vs idx = Inl e \<Longrightarrow> e = IndexError"
  by (simp add: take_idx_def split: if_splits)

lemma rollout_step_events:
  "\<exists>evs. rs_trace (snd (rollout_step B idx i st)) = rs_trace st @ evs
        \<and> count_events is_policy_run evs \<le> 1
        \<and> count_events is_env_step evs = 1
        \<and> (fst (rollout_step B idx i st) = None \<longrightarrow> count_events is_policy_run evs = 1)
        \<and> (\<forall>e. fst (rollout_step B idx i st) = Some e \<longrightarrow> e = IndexError)"
proof (cases "take_idx (scans (fst (env_step B (rs_steer st, rs_vel st) (rs_sim st)))) idx")
  case (Inl e)
  then have e: "e = IndexError" by (rule take_idx_error)
  have "rs_trace (snd (rollout_step B idx i st)) = rs_trace st @ [EnvStep (rs_steer st, rs_vel st)]"
    and "fst (rollout_step B idx i st) = Some IndexError"
    using Inl e by (simp_all add: rollout_step_def Let_def)
  moreover have "count_events is_policy_run [EnvStep (rs_steer st, rs_vel st)] \<le> 1"
    "count_events is_env_step [EnvStep (rs_steer st, rs_vel st)] = 1"
    by (simp_all add: count_events_def)
  ultimately show ?thesis by (intro exI [of _ "[EnvStep (rs_steer st, rs_vel st)]"]) simp
next
  case (Inr scan)
  let ?so = "fst (env_step B (rs_steer st, rs_vel st) (rs_sim st))"
  let ?ob = "\<lparr>obs_scan = scan, obs_pose = (poses_x ?so, poses_y ?so, Some (poses_theta ?so)),
              obs_vel = (linear_vels_x ?so, linear_vels_y ?so, ang_vels_z ?so),
              obs_heading = (rs_steer st, get_beta (rs_steer st))\<rparr>"
  have t: "rs_trace (snd (rollout_step B idx i st))
        = rs_trace st @ [EnvStep (rs_steer st, rs_vel st), PolicyRun ?ob]"
    using Inr by (simp add: rollout_step_def Let_def)
  have x: "fst (rollout_step B idx i st) = None \<or> fst (rollout_step B idx i st) = Some IndexError"
    using Inr by (simp add: rollout_step_def Let_def)
  have c: "count_events is_policy_run [EnvStep (rs_steer st, rs_vel st), PolicyRun ?ob] = 1"
    "count_events is_env_step [EnvStep (rs_steer st, rs_vel st), PolicyRun ?ob] = 1"
    by (simp_all add: count_events_def)
  show ?thesis
    using t x c by (intro exI [of _ "[EnvStep (rs_steer st, rs_vel st), PolicyRun ?ob]"]) auto
qed

lemma rollout_bounds:
  "\<exists>evs. rs_trace (snd (rollout B idx n i st)) = rs_trace st @ evs
        \<and> count_events is_policy_run evs \<le> n
        \<and> count_events is_env_step evs \<le> n
        \<and> (fst (rollout B idx n i st) = None \<longrightarrow>
              count_events is_policy_run evs = n \<and> count_events is_env_step evs = n)
        \<and> (\<forall>e. fst (rollout B idx n i st) = Some e \<longrightarrow> e = IndexError)"
proof (induction n arbitrary: i st)
  case 0
  show ?case by (simp add: count_events_def)
next
  case (Suc n)
  let ?s = "rollout_step B idx i st"
  from rollout_step_events [of B idx i st] obtain evs1 where
    a1: "rs_trace (snd ?s) = rs_trace st @ evs1
        \<and> count_events is_policy_run evs1 \<le> 1
        \<and> count_events is_env_step evs1 = 1
        \<and> (fst ?s = None \<longrightarrow> count_events is_policy_run evs1 = 1)
        \<and> (\<forall>e. fst ?s = Some e \<longrightarrow> e = IndexError)" ..
  note e1 = conjunct1 [OF a1]
  note p1 = conjunct1 [OF conjunct2 [OF a1]]
  note s1 = conjunct1 [OF conjunct2 [OF conjunct2 [OF a1]]]
  note n1 = conjunct1 [OF conjunct2 [OF conjunct2 [OF conjunct2 [OF a1]]]]
  note x1 = conjunct2 [OF conjunct2 [OF conjunct2 [OF conjunct2 [OF a1]]]]
  show ?case
  proof (cases "fst ?s")
    case None
    let ?r = "rollout B idx n (i + 1) (snd ?s)"
    from Suc.IH [of "i + 1" "snd ?s"] obtain evs2 where
      a2: "rs_trace (snd ?r) = rs_trace (snd ?s) @ evs2
        \<and> count_events is_policy_run evs2 \<le> n
        \<and> count_events is_env_step evs2 \<le> n
        \<and> (fst ?r = None \<longrightarrow>
              count_events is_policy_run evs2 = n \<and> count_events is_env_step evs2 = n)
        \<and> (\<forall>e. fst ?r = Some e \<longrightarrow> e = IndexError)" ..
    note e2 = conjunct1 [OF a2]
    note p2 = conjunct1 [OF conjunct2 [OF a2]]
    note s2 = conjunct1 [OF conjunct2 [OF conjunct2 [OF a2]]]
    note n2 = conjunct1 [OF conjunct2 [OF conjunct2 [OF conjunct2 [OF a2]]]]
    note x2 = conjunct2 [OF conjunct2 [OF conjunct2 [OF conjunct2 [OF a2]]]]
    have unf: "rollout B idx (Suc n) i st = ?r" using None by (simp add: Let_def)
    have t: "rs_trace (snd (rollout B idx (Suc n) i st)) = rs_trace st @ (evs1 @ evs2)"
      unfolding unf using e1 e2 by simp
    have c: "count_events is_policy_run (evs1 @ evs2) \<le> Suc n"
      "count_events is_env_step (evs1 @ evs2) \<le> Suc n"
      using p1 s1 p2 s2 by (simp_all add: count_events_append)
    have d: "fst (rollout B idx (Suc n) i st) = None \<longrightarrow>
              count_events is_policy_run (evs1 @ evs2) = Suc n
              \<and> count_events is_env_step (evs1 @ evs2) = Suc n"
      unfolding unf using n1 None s1 n2 by (simp add: count_events_append)
    have x: "\<forall>e. fst (rollout B idx (Suc n) i st) = Some e \<longrightarrow> e = IndexError"
      unfolding unf using x2 by simp
    show ?thesis
      by (rule exI [of _ "evs1 @ evs2"]) (intro conjI t c d x)
  next
    case (Some e)
    have unf: "rollout B idx (Suc n) i st = ?s" using Some by (simp add: Let_def)
    have t: "rs_trace (snd (rollout B idx (Suc n) i st)) = rs_trace st @ evs1"
      unfolding unf using e1 by simp
    have c: "count_events is_policy_run evs1 \<le> Suc n" "count_events is_env_step evs1 \<le> Suc n"
      using p1 s1 by simp_all
    have d: "fst (rollout B idx (Suc n) i st) = None \<longrightarrow>
              count_events is_policy_run evs1 = Suc n \<and> count_events is_env_step evs1 = Suc n"
      unfolding unf using Some by simp
    have x: "\<forall>e. fst (rollout B idx (Suc n) i st) = Some e \<longrightarrow> e = IndexError"
      unfolding unf using x1 by simp
    show ?thesis
      by (rule exI [of _ evs1]) (intro conjI t c d x)
  qed
qed

lemma plan_trace_shape:
  assumes "\<not> DRIVE nd" and "0 \<le> N_SIM nd"
  shows "\<exists>fin. oc_trace (pose_callback B nd sim msg)
               = rs_trace (snd (rollout B (SCAN_INDEX nd) (nat (N_SIM nd)) 0
                                 (cycle_start B nd sim msg))) @ fin
             \<and> count_events is_policy_run fin = 0
             \<and> count_events is_env_step fin = 0
             \<and> oc_sim (pose_callback B nd sim msg)
               = rs_sim (snd (rollout B (SCAN_INDEX nd) (nat (N_SIM nd)) 0
                                 (cycle_start B nd sim msg)))
             \<and> (\<forall>e. fst (rollout B (SCAN_INDEX nd) (nat (N_SIM nd)) 0
                            (cycle_start B nd sim msg)) = Some e
                    \<longrightarrow> oc_err (pose_callback B nd sim msg) = Some e)"
proof -
  let ?r = "rollout B (SCAN_INDEX nd) (nat (N_SIM nd)) 0 (cycle_start B nd sim msg)"
  let ?k = "py_int (sim_time_step (cfg nd) / rl_sim_time_step (cfg nd))"
  let ?viz = "VizPublish (visualize_future_pose (rs_poses (snd ?r)))"
  note pc = pose_callback_plan [OF assms(2) assms(1), of B sim msg]
  consider (err) e where "fst ?r = Some e"
    | (zero) "fst ?r = None" "rl_sim_time_step (cfg nd) = 0"
    | (bad) e where "fst ?r = None" "rl_sim_time_step (cfg nd) \<noteq> 0"
        "slice_step ?k (rs_ref (snd ?r)) = Inl e"
    | (ok) out where "fst ?r = None" "rl_sim_time_step (cfg nd) \<noteq> 0"
        "slice_step ?k (rs_ref (snd ?r)) = Inr out"
    by (cases "fst ?r"; cases "slice_step ?k (rs_ref (snd ?r))"; cases "rl_sim_time_step (cfg nd) = 0") auto
  then show ?thesis
  proof cases
    case err
    then have "pose_callback B nd sim msg
        = \<lparr>oc_err = Some e, oc_node = cycle_node B nd msg, oc_sim = rs_sim (snd ?r),
           oc_trace = rs_trace (snd ?r)\<rparr>"
      by (simp add: pc Let_def)
    then show ?thesis using err
      by (intro exI [of _ "[]"]) (simp add: count_events_def)
  next
    case zero
    then have "pose_callback B nd sim msg
        = \<lparr>oc_err = Some ZeroDivisionError, oc_node = cycle_node B nd msg,
           oc_sim = rs_sim (snd ?r), oc_trace = rs_trace (snd ?r) @ [?viz]\<rparr>"
      by (simp add: pc Let_def)
    then show ?thesis using zero
      by (intro exI [of _ "[?viz]"]) (simp add: count_events_def)
  next
    case bad
    then have "pose_callback B nd sim msg
        = \<lparr>oc_err = Some e, oc_node = cycle_node B nd msg,
           oc_sim = rs_sim (snd ?r), oc_trace = rs_trace (snd ?r) @ [?viz]\<rparr>"
      by (simp add: pc Let_def)
    then show ?thesis using bad
      by (intro exI [of _ "[?viz]"]) (simp add: count_events_def)
  next
    case ok
    then have "pose_callback B nd sim msg
        = \<lparr>oc_err = None, oc_node = cycle_node B nd msg,
           oc_sim = rs_sim (snd ?r), oc_trace = rs_trace (snd ?r) @ [?viz, TrajPublish out]\<rparr>"
      by (simp add: pc Let_def)
    then show ?thesis using ok
      by (intro exI [of _ "[?viz, TrajPublish out]"]) (simp add: count_events_def)
  qed
qed

lemma count_zero_filter: "count_events P xs = 0 \<Longrightarrow> filter P xs = []"
  by (simp add: count_events_def)

text \<open>
  Claim C1, amended. In planning mode with horizon \<open>N = N_SIM \<ge> 0\<close> a callback never runs
  the policy more than \<open>N + 1\<close> times nor steps the simulator more than \<open>N\<close> times, and it
  falls short of these numbers only by raising IndexError. When every simulated scan has a
  reading at each index of \<^verbatim>\<open>SCAN_INDEX\<close>, the policy runs exactly \<open>N + 1\<close> times and the
  simulator is stepped exactly \<open>N\<close> times: the trace is the policy run on the real state, the
  reset, the calls of the specification's rollout (each step taking the action the inference
  adapter computed last), then publications only, and the simulator is left in the state
  that rollout reaches. For horizon 2 these are 3 policy runs and 2 steps.
\<close>

theorem rollout_call_counts:
  assumes "\<not> DRIVE nd" and "0 \<le> N_SIM nd"
  shows "count_events is_policy_run (oc_trace (pose_callback B nd sim msg)) \<le> nat (N_SIM nd) + 1
       \<and> count_events is_env_step (oc_trace (pose_callback B nd sim msg)) \<le> nat (N_SIM nd)
       \<and> (oc_err (pose_callback B nd sim msg) = Some IndexError \<or>
            count_events is_policy_run (oc_trace (pose_callback B nd sim msg)) = nat (N_SIM nd) + 1
            \<and> count_events is_env_step (oc_trace (pose_callback B nd sim msg)) = nat (N_SIM nd))
       \<and> ((\<forall>a s. list_all (\<lambda>i. i < length (scans (fst (env_step B a s)))) (SCAN_INDEX nd)) \<longrightarrow>
            count_events is_policy_run (oc_trace (pose_callback B nd sim msg)) = nat (N_SIM nd) + 1
            \<and> count_events is_env_step (oc_trace (pose_callback B nd sim msg)) = nat (N_SIM nd)
            \<and> (\<exists>fin. oc_trace (pose_callback B nd sim msg)
                  = [PolicyRun (cycle_obs nd msg),
                     EnvReset (pos_x msg, pos_y msg, cycle_yaw msg)]
                    @ fst (spec_rollout B (SCAN_INDEX nd) (nat (N_SIM nd))
                             (env_reset B (pos_x msg, pos_y msg, cycle_yaw msg) sim)
                             (cycle_action B nd msg))
                    @ fin
                  \<and> count_events is_policy_run fin = 0
                  \<and> count_events is_env_step fin = 0)
            \<and> filter is_env_step (oc_trace (pose_callback B nd sim msg))
              = filter is_env_step
                  (fst (spec_rollout B (SCAN_INDEX nd) (nat (N_SIM nd))
                          (env_reset B (pos_x msg, pos_y msg, cycle_yaw msg) sim)
                          (cycle_action B nd msg)))
            \<and> oc_sim (pose_callback B nd sim msg)
              = snd (spec_rollout B (SCAN_INDEX nd) (nat (N_SIM nd))
                       (env_reset B (pos_x msg, pos_y msg, cycle_yaw msg) sim)
                       (cycle_action B nd msg))
            \<and> (N_SIM nd = 2 \<longrightarrow>
                  count_events is_policy_run (oc_trace (pose_callback B nd sim msg)) = 3
                  \<and> count_events is_env_step (oc_trace (pose_callback B nd sim msg)) = 2))"
proof -
  let ?st0 = "cycle_start B nd sim msg"
  let ?n = "nat (N_SIM nd)"
  let ?r = "rollout B (SCAN_INDEX nd) ?n 0 ?st0"
  let ?R = "pose_callback B nd sim msg"
  let ?hd = "[PolicyRun (cycle_obs nd msg), EnvReset (pos_x msg, pos_y msg, cycle_yaw msg)]"
  let ?S = "spec_rollout B (SCAN_INDEX nd) ?n
              (env_reset B (pos_x msg, pos_y msg, cycle_yaw msg) sim) (cycle_action B nd msg)"
  from plan_trace_shape [OF assms, of B sim msg] obtain fin where
    a: "oc_trace ?R = rs_trace (snd ?r) @ fin
        \<and> count_events is_policy_run fin = 0
        \<and> count_events is_env_step fin = 0
        \<and> oc_sim ?R = rs_sim (snd ?r)
        \<and> (\<forall>e. fst ?r = Some e \<longrightarrow> oc_err ?R = Some e)" ..
  note tr = conjunct1 [OF a]
  note fp = conjunct1 [OF conjunct2 [OF a]]
  note fs = conjunct1 [OF conjunct2 [OF conjunct2 [OF a]]]
  note sm = conjunct1 [OF conjunct2 [OF conjunct2 [OF conjunct2 [OF a]]]]
  note er = conjunct2 [OF conjunct2 [OF conjunct2 [OF conjunct2 [OF a]]]]
  from rollout_bounds [of B "SCAN_INDEX nd" ?n 0 ?st0] obtain evs where
    b: "rs_trace (snd ?r) = rs_trace ?st0 @ evs
        \<and> count_events is_policy_run evs \<le> ?n
        \<and> count_events is_env_step evs \<le> ?n
        \<and> (fst ?r = None \<longrightarrow>
              count_events is_policy_run evs = ?n \<and> count_events is_env_step evs = ?n)
        \<and> (\<forall>e. fst ?r = Some e \<longrightarrow> e = IndexError)" ..
  note lt = conjunct1 [OF b]
  note lp = conjunct1 [OF conjunct2 [OF b]]
  note ls = conjunct1 [OF conjunct2 [OF conjunct2 [OF b]]]
  note ln = conjunct1 [OF conjunct2 [OF conjunct2 [OF conjunct2 [OF b]]]]
  note lx = conjunct2 [OF conjunct2 [OF conjunct2 [OF conjunct2 [OF b]]]]
  have st0: "rs_trace ?st0 = ?hd" by (simp add: cycle_start_def)
  have full: "oc_trace ?R = ?hd @ evs @ fin" using tr lt st0 by simp
  have cp: "count_events is_policy_run (oc_trace ?R) = count_events is_policy_run evs + 1"
    unfolding full count_events_append using fp by (simp add: count_events_def)
  have cs: "count_events is_env_step (oc_trace ?R) = count_events is_env_step evs"
    unfolding full count_events_append using fs by (simp add: count_events_def)
  have c1: "count_events is_policy_run (oc_trace ?R) \<le> ?n + 1" using cp lp by simp
  have c2: "count_events is_env_step (oc_trace ?R) \<le> ?n" using cs ls by simp
  have exact: "count_events is_policy_run (oc_trace ?R) = ?n + 1
       \<and> count_events is_env_step (oc_trace ?R) = ?n" if "fst ?r = None"
    using that ln cp cs by simp
  have c3: "oc_err ?R = Some IndexError \<or>
            count_events is_policy_run (oc_trace ?R) = ?n + 1
            \<and> count_events is_env_step (oc_trace ?R) = ?n"
  proof (cases "fst ?r")
    case None
    then show ?thesis using exact by simp
  next
    case (Some e)
    then have "e = IndexError" using lx by simp
    then show ?thesis using Some er by simp
  qed
  have c4: "count_events is_policy_run (oc_trace ?R) = ?n + 1
            \<and> count_events is_env_step (oc_trace ?R) = ?n
            \<and> (\<exists>fin. oc_trace ?R = ?hd @ fst ?S @ fin
                  \<and> count_events is_policy_run fin = 0
                  \<and> count_events is_env_step fin = 0)
            \<and> filter is_env_step (oc_trace ?R) = filter is_env_step (fst ?S)
            \<and> oc_sim ?R = snd ?S
            \<and> (N_SIM nd = 2 \<longrightarrow>
                  count_events is_policy_run (oc_trace ?R) = 3
                  \<and> count_events is_env_step (oc_trace ?R) = 2)"
    if sc: "\<forall>a s. list_all (\<lambda>i. i < length (scans (fst (env_step B a s)))) (SCAN_INDEX nd)"
  proof -
    have len: "0 + ?n < length (rs_ref ?st0)"
      using assms(2) by (simp add: cycle_start_length)
    have none: "fst ?r = None" using rollout_ok [OF sc len] by simp
    note ex = exact [OF none]
    have s0: "rs_sim ?st0 = env_reset B (pos_x msg, pos_y msg, cycle_yaw msg) sim"
      "(rs_steer ?st0, rs_vel ?st0) = cycle_action B nd msg"
      by (simp_all add: cycle_start_def)
    note rf = rollout_refines [OF sc len]
    have t1: "rs_trace (snd ?r) = ?hd @ fst ?S"
      using conjunct1 [OF rf] unfolding s0 st0 .
    have t2: "rs_sim (snd ?r) = snd ?S"
      using conjunct2 [OF rf] unfolding s0 .
    have f1: "oc_trace ?R = ?hd @ fst ?S @ fin" using tr t1 by simp
    have f2: "filter is_env_step (oc_trace ?R) = filter is_env_step (fst ?S)"
      unfolding f1 using count_zero_filter [OF fs] by simp
    have f3: "oc_sim ?R = snd ?S" using sm t2 by simp
    have f4: "\<exists>fin. oc_trace ?R = ?hd @ fst ?S @ fin
                  \<and> count_events is_policy_run fin = 0
                  \<and> count_events is_env_step fin = 0"
      by (rule exI [of _ fin]) (intro conjI f1 fp fs)
    have f5: "N_SIM nd = 2 \<longrightarrow>
                  count_events is_policy_run (oc_trace ?R) = 3
                  \<and> count_events is_env_step (oc_trace ?R) = 2"
      using ex by simp
    show ?thesis by (intro conjI conjunct1 [OF ex] conjunct2 [OF ex] f4 f2 f3 f5)
  qed
  show ?thesis
    by (intro conjI c1 c2 c3 impI c4) assumption
qed

lemma scenario_node_fields:
  "\<not> DRIVE scenario_node" "N_SIM scenario_node = 2" "SCAN_INDEX scenario_node = [0, 540]"
  by (simp_all add: scenario_node_def)

lemma scenario_action:
  "cycle_action scenario_backends scenario_node scenario_msg = (0.4189, 2)"
  by (simp add: cycle_action_def run_model_def scenario_backends_def clip_def CONTROL_MAX_def Let_def)

lemma scenario_spec_rollout:
  "filter is_env_step (fst (spec_rollout scenario_backends [0, 540] (Suc (Suc 0)) s (0.4189, 2)))
     = [EnvStep (0.4189, 2), EnvStep (0.4189, 2)]
   \<and> snd (spec_rollout scenario_backends [0, 540] (Suc (Suc 0)) s (0.4189, 2)) = s + 2"
  by (simp add: scenario_backends_def run_model_def clip_def CONTROL_MAX_def Let_def)

theorem rollout_call_counts_witness:
  "count_events is_policy_run
     (oc_trace (pose_callback scenario_backends scenario_node 0 scenario_msg)) = 3
   \<and> count_events is_env_step
     (oc_trace (pose_callback scenario_backends scenario_node 0 scenario_msg)) = 2
   \<and> filter is_env_step (oc_trace (pose_callback scenario_backends scenario_node 0 scenario_msg))
     = [EnvStep (0.4189, 2), EnvStep (0.4189, 2)]
   \<and> oc_sim (pose_callback scenario_backends scenario_node 0 scenario_msg) = 2"
proof -
  have r: "env_reset scenario_backends (pos_x scenario_msg, pos_y scenario_msg, cycle_yaw scenario_msg) 0 = 0"
    by (simp add: scenario_backends_def)
  have n: "nat (N_SIM scenario_node) = Suc (Suc 0)"
    by (simp add: scenario_node_fields numeral_2_eq_2)
  have h: "\<forall>a s. list_all (\<lambda>i. i < length (scans (fst (env_step scenario_backends a s))))
             (SCAN_INDEX scenario_node)"
    using scenario_scans_ok by (simp add: scenario_node_fields)
  have p: "\<not> DRIVE scenario_node" "0 \<le> N_SIM scenario_node"
    by (simp_all add: scenario_node_fields)
  from rollout_call_counts [OF p, of scenario_backends 0 scenario_msg] h
  show ?thesis
    unfolding r n scenario_action scenario_node_fields(3)
    using scenario_spec_rollout [of 0] by (simp add: scenario_node_fields)
qed

text \<open>
  The claim as written has the rollout never end early. With horizon 2 and a simulator that
  returns two readings per scan, the first iteration raises IndexError on index 540: the
  policy has run once and the simulator has been stepped once.
\<close>

theorem rollout_stops_on_short_scan_counterexample:
  "count_events is_policy_run
     (oc_trace (pose_callback scenario_backends_short scenario_node 0 scenario_msg)) = 1
   \<and> count_events is_env_step
     (oc_trace (pose_callback scenario_backends_short scenario_node 0 scenario_msg)) = 1
   \<and> oc_err (pose_callback scenario_backends_short scenario_node 0 scenario_msg)
     = Some IndexError
   \<and> N_SIM scenario_node = 2 \<and> \<not> DRIVE scenario_node"
proof -
  have p: "0 \<le> N_SIM scenario_node" "\<not> DRIVE scenario_node"
    by (simp_all add: scenario_node_fields)
  have n: "nat (N_SIM scenario_node) = Suc (Suc 0)"
    by (simp add: scenario_node_fields numeral_2_eq_2)
  let ?st0 = "cycle_start scenario_backends_short scenario_node 0 scenario_msg"
  have t: "take_idx (scans (fst (env_step scenario_backends_short (rs_steer ?st0, rs_vel ?st0) (rs_sim ?st0))))
             [0, 540] = Inl IndexError"
    by (simp add: take_idx_def scenario_backends_short_def)
  have s: "rollout_step scenario_backends_short [0, 540] 0 ?st0
           = (Some IndexError,
              ?st0\<lparr>rs_sim := snd (env_step scenario_backends_short (rs_steer ?st0, rs_vel ?st0) (rs_sim ?st0)),
                    rs_trace := rs_trace ?st0 @ [EnvStep (rs_steer ?st0, rs_vel ?st0)]\<rparr>)"
    using t by (simp add: rollout_step_def Let_def)
  have r: "rollout scenario_backends_short (SCAN_INDEX scenario_node) (nat (N_SIM scenario_node)) 0 ?st0
           = (Some IndexError,
              ?st0\<lparr>rs_sim := snd (env_step scenario_backends_short (rs_steer ?st0, rs_vel ?st0) (rs_sim ?st0)),
                    rs_trace := rs_trace ?st0 @ [EnvStep (rs_steer ?st0, rs_vel ?st0)]\<rparr>)"
    unfolding n scenario_node_fields(3) using s by (simp add: Let_def)
  have "pose_callback scenario_backends_short scenario_node 0 scenario_msg
        = \<lparr>oc_err = Some IndexError,
           oc_node = cycle_node scenario_backends_short scenario_node scenario_msg,
           oc_sim = snd (env_step scenario_backends_short (rs_steer ?st0, rs_vel ?st0) (rs_sim ?st0)),
           oc_trace = rs_trace ?st0 @ [EnvStep (rs_steer ?st0, rs_vel ?st0)]\<rparr>"
    unfolding pose_callback_plan [OF p] r by (simp add: Let_def)
  then show ?thesis
    by (simp add: cycle_start_def count_events_def scenario_node_fields)
qed

lemma positive_ratio_nonzero:
  "0 < py_int (a / b) \<Longrightarrow> b \<noteq> 0"
  by (auto simp: py_int_def)

lemma plan_published:
  assumes "\<not> DRIVE nd" and "0 \<le> N_SIM nd"
    and "\<forall>a s. list_all (\<lambda>i. i < length (scans (fst (env_step B a s)))) (SCAN_INDEX nd)"
    and "0 < py_int (sim_time_step (cfg nd) / rl_sim_time_step (cfg nd))"
  shows "published_traj (oc_trace (pose_callback B nd sim msg))
         = Some (map (\<lambda>j. cycle_ref_traj B nd sim msg
                        ! (j * nat (py_int (sim_time_step (cfg nd) / rl_sim_time_step (cfg nd)))))
                  [0 ..< nat (N_SIM nd)
                           div nat (py_int (sim_time_step (cfg nd) / rl_sim_time_step (cfg nd))) + 1])"
    and "oc_err (pose_callback B nd sim msg) = None"
proof -
  let ?k = "py_int (sim_time_step (cfg nd) / rl_sim_time_step (cfg nd))"
  let ?out = "map (\<lambda>j. cycle_ref_traj B nd sim msg ! (j * nat ?k))
                [0 ..< nat (N_SIM nd) div nat ?k + 1]"
  have rl: "rl_sim_time_step (cfg nd) \<noteq> 0"
    using assms(4) by (rule positive_ratio_nonzero)
  have len: "length (cycle_ref_traj B nd sim msg) = Suc (nat (N_SIM nd))"
    using assms(2) by (simp add: cycle_ref_traj_length nat_add_distrib)
  have "(length (cycle_ref_traj B nd sim msg) + nat ?k - 1) div nat ?k
        = nat (N_SIM nd) div nat ?k + 1"
    unfolding len using assms(4) by (intro slice_count) simp
  then have sl: "slice_step ?k (cycle_ref_traj B nd sim msg) = Inr ?out"
    using assms(4) by (simp add: slice_step_positive)
  from plan_outcome [OF assms(1-3), of sim msg] obtain st :: "'a rollout_state" and evs where
    m: "pose_callback B nd sim msg
             = \<lparr>oc_err =
                  (if rl_sim_time_step (cfg nd) = 0 then Some ZeroDivisionError
                   else case slice_step ?k (cycle_ref_traj B nd sim msg) of
                          Inl e \<Rightarrow> Some e | Inr out \<Rightarrow> None),
                oc_node = cycle_node B nd msg,
                oc_sim = rs_sim st,
                oc_trace =
                  [PolicyRun (cycle_obs nd msg), EnvReset (pos_x msg, pos_y msg, cycle_yaw msg)]
                  @ evs @ [VizPublish (visualize_future_pose (rs_poses st))]
                  @ (if rl_sim_time_step (cfg nd) = 0 then []
                     else case slice_step ?k (cycle_ref_traj B nd sim msg) of
                            Inl e \<Rightarrow> [] | Inr out \<Rightarrow> [TrajPublish out])\<rparr>"
    by blast
  have tr: "oc_trace (pose_callback B nd sim msg)
      = ([PolicyRun (cycle_obs nd msg), EnvReset (pos_x msg, pos_y msg, cycle_yaw msg)]
         @ evs @ [VizPublish (visualize_future_pose (rs_poses st))]) @ [TrajPublish ?out]"
    unfolding m using rl sl by simp
  show "published_traj (oc_trace (pose_callback B nd sim msg)) = Some ?out"
    unfolding tr by (rule published_traj_append)
  show "oc_err (pose_callback B nd sim msg) = None"
    unfolding m using rl sl by simp
qed

text \<open>
  Claim C3, amended. With a positive ratio \<open>k\<close> of the two time steps, the published
  trajectory consists of the elements \<open>0, k, 2k, \<dots>\<close> of the fine trajectory of \<open>N + 1\<close>
  elements, and it has \<open>\<lfloor>N / k\<rfloor> + 1\<close> elements, which is \<open>\<lceil>(N + 1) / k\<rceil>\<close>: 3 elements
  for \<open>N = 8\<close> and \<open>k = 4\<close>.
\<close>

theorem resample_every_kth:
  assumes "\<not> DRIVE nd" and "0 \<le> N_SIM nd"
    and "\<forall>a s. list_all (\<lambda>i. i < length (scans (fst (env_step B a s)))) (SCAN_INDEX nd)"
    and "0 < py_int (sim_time_step (cfg nd) / rl_sim_time_step (cfg nd))"
  shows "published_traj (oc_trace (pose_callback B nd sim msg))
         = Some (map (\<lambda>j. cycle_ref_traj B nd sim msg
                        ! (j * nat (py_int (sim_time_step (cfg nd) / rl_sim_time_step (cfg nd)))))
                  [0 ..< nat (N_SIM nd)
                           div nat (py_int (sim_time_step (cfg nd) / rl_sim_time_step (cfg nd))) + 1])
       \<and> length (cycle_ref_traj B nd sim msg) = nat (N_SIM nd) + 1
       \<and> map_option length (published_traj (oc_trace (pose_callback B nd sim msg)))
         = Some (nat (N_SIM nd)
                   div nat (py_int (sim_time_step (cfg nd) / rl_sim_time_step (cfg nd))) + 1)
       \<and> (N_SIM nd = 8 \<and> py_int (sim_time_step (cfg nd) / rl_sim_time_step (cfg nd)) = 4 \<longrightarrow>
            map_option length (published_traj (oc_trace (pose_callback B nd sim msg))) = Some 3)"
proof -
  note p = plan_published(1) [OF assms, of sim msg]
  have l: "length (cycle_ref_traj B nd sim msg) = nat (N_SIM nd) + 1"
    using assms(2) by (simp add: cycle_ref_traj_length nat_add_distrib)
  show ?thesis unfolding p using l by simp
qed

lemma scenario8_ratio:
  "py_int (sim_time_step (cfg scenario_node8) / rl_sim_time_step (cfg scenario_node8)) = 4"
  by (simp add: scenario_node8_def scenario_cfg8_def py_int_def)

theorem resample_every_kth_witness:
  "map_option length
     (published_traj (oc_trace (pose_callback scenario_backends scenario_node8 0 scenario_msg)))
   = Some (8 div 4 + 1)"
  using resample_every_kth [of scenario_node8 scenario_backends 0 scenario_msg]
    scenario_scans_ok scenario8_ratio
  by (simp add: scenario_node8_def)

text \<open>
  The claim as written counts \<open>\<lfloor>(N + 1) / k\<rfloor>\<close> elements, which is 2 for \<open>N = 8\<close> and
  \<open>k = 4\<close>; the callback publishes the 3 rows 0, 4 and 8.
\<close>

theorem resample_floor_counterexample:
  "map_option length
     (published_traj (oc_trace (pose_callback scenario_backends scenario_node8 0 scenario_msg)))
   = Some 3
   \<and> (3::nat) \<noteq> (8 + 1) div 4"
proof -
  have "\<not> DRIVE scenario_node8" "0 \<le> N_SIM scenario_node8"
    "\<forall>a s. list_all (\<lambda>i. i < length (scans (fst (env_step scenario_backends a s))))
        (SCAN_INDEX scenario_node8)"
    "0 < py_int (sim_time_step (cfg scenario_node8) / rl_sim_time_step (cfg scenario_node8))"
    using scenario_scans_ok scenario8_ratio by (simp_all add: scenario_node8_def)
  from plan_published(1) [OF this, of 0 scenario_msg]
  show ?thesis using scenario8_ratio by (simp add: scenario_node8_def)
qed

subsection \<open>The first published point\<close>

lemma loop_events_no_publish:
  assumes "\<forall>e\<in>set evs. is_env_step e \<or>
             (\<exists>ob. e = PolicyRun ob \<and> snd (obs_heading ob) = get_beta (fst (obs_heading ob)))"
  shows "count_events is_traj_publish evs = 0"
proof -
  have "\<forall>e\<in>set evs. \<not> is_traj_publish e"
  proof
    fix e assume "e \<in> set evs"
    with assms have "is_env_step e \<or> (\<exists>ob. e = PolicyRun ob)" by blast
    then show "\<not> is_traj_publish e" by (cases e) auto
  qed
  then show ?thesis by (simp add: count_events_def)
qed

lemma plan_published_slice:
  assumes "\<not> DRIVE nd" and "0 \<le> N_SIM nd"
    and "published_traj (oc_trace (pose_callback B nd sim msg)) = Some out"
  shows "slice_step (py_int (sim_time_step (cfg nd) / rl_sim_time_step (cfg nd)))
           (cycle_ref_traj B nd sim msg) = Inr out"
proof -
  let ?hd = "[PolicyRun (cycle_obs nd msg), EnvReset (pos_x msg, pos_y msg, cycle_yaw msg)]"
  from plan_general [OF assms(1,2), of B sim msg] obtain evs fin where
    t: "oc_trace (pose_callback B nd sim msg) = ?hd @ evs @ fin"
    and h: "\<forall>e\<in>set evs. is_env_step e \<or>
             (\<exists>ob. e = PolicyRun ob \<and> snd (obs_heading ob) = get_beta (fst (obs_heading ob)))"
    and f: "fin = [] \<or> (\<exists>ms. fin = [VizPublish ms]) \<or>
               (\<exists>ms out. fin = [VizPublish ms, TrajPublish out]
                  \<and> slice_step (py_int (sim_time_step (cfg nd) / rl_sim_time_step (cfg nd)))
                       (cycle_ref_traj B nd sim msg) = Inr out)"
    by blast
  have n: "count_events is_traj_publish (?hd @ evs) = 0"
    using loop_events_no_publish [OF h] by (simp add: count_events_def)
  from f consider (a) "fin = []" | (b) ms where "fin = [VizPublish ms]"
    | (c) ms out' where "fin = [VizPublish ms, TrajPublish out']"
        "slice_step (py_int (sim_time_step (cfg nd) / rl_sim_time_step (cfg nd)))
                       (cycle_ref_traj B nd sim msg) = Inr out'"
    by blast
  then show ?thesis
  proof cases
    case a
    then have "count_events is_traj_publish (oc_trace (pose_callback B nd sim msg)) = 0"
      using n t by (simp add: count_events_def)
    then have "published_traj (oc_trace (pose_callback B nd sim msg)) = None"
      by (rule published_traj_none)
    with assms(3) show ?thesis by simp
  next
    case b
    then have "count_events is_traj_publish (oc_trace (pose_callback B nd sim msg)) = 0"
      using n t by (simp add: count_events_def)
    then have "published_traj (oc_trace (pose_callback B nd sim msg)) = None"
      by (rule published_traj_none)
    with assms(3) show ?thesis by simp
  next
    case c
    have "oc_trace (pose_callback B nd sim msg) = (?hd @ evs @ [VizPublish ms]) @ [TrajPublish out']"
      using t c(1) by simp
    then have "published_traj (oc_trace (pose_callback B nd sim msg)) = Some out'"
      by (simp only: published_traj_append)
    with assms(3) c(2) show ?thesis by simp
  qed
qed

text \<open>
  Claim C8. A slice with a positive step keeps index 0: in planning mode, whenever a
  trajectory is published, it is not empty and its first element is row 0 of
  \<^verbatim>\<open>ref_traj\<close>, the state vector built from the pose and velocity of the message and the
  steer of the action computed in this cycle. With a simulator whose scans cover
  \<^verbatim>\<open>SCAN_INDEX\<close> a trajectory is published.
\<close>

theorem published_first_is_current_state:
  assumes "\<not> DRIVE nd" and "0 \<le> N_SIM nd"
    and "0 < py_int (sim_time_step (cfg nd) / rl_sim_time_step (cfg nd))"
  shows "(\<forall>out. published_traj (oc_trace (pose_callback B nd sim msg)) = Some out \<longrightarrow>
            out \<noteq> [] \<and> hd out = cycle_row0 B nd msg)
       \<and> cycle_row0 B nd msg
         = to_mppi_state (pos_x msg) (pos_y msg) (cycle_yaw msg) (ang_z msg) (lin_x msg)
             (lin_y msg) (fst (run_model (policy B) (cycle_obs nd msg)))
       \<and> ((\<forall>a s. list_all (\<lambda>i. i < length (scans (fst (env_step B a s)))) (SCAN_INDEX nd)) \<longrightarrow>
            (\<exists>out. published_traj (oc_trace (pose_callback B nd sim msg)) = Some out))"
proof -
  let ?k = "py_int (sim_time_step (cfg nd) / rl_sim_time_step (cfg nd))"
  let ?ref = "cycle_ref_traj B nd sim msg"
  have len: "length ?ref = Suc (nat (N_SIM nd))"
    using assms(2) by (simp add: cycle_ref_traj_length nat_add_distrib)
  have cnt: "(length ?ref + nat ?k - 1) div nat ?k = nat (N_SIM nd) div nat ?k + 1"
    unfolding len using assms(3) by (intro slice_count) simp
  have a: "out \<noteq> [] \<and> hd out = cycle_row0 B nd msg"
    if p: "published_traj (oc_trace (pose_callback B nd sim msg)) = Some out" for out
  proof -
    have "slice_step ?k ?ref = Inr out"
      using plan_published_slice [OF assms(1,2) p] .
    then have o: "out = map (\<lambda>j. ?ref ! (j * nat ?k)) [0 ..< nat (N_SIM nd) div nat ?k + 1]"
      using assms(3) cnt by (simp add: slice_step_positive)
    have "[0 ..< nat (N_SIM nd) div nat ?k + 1] = 0 # [1 ..< nat (N_SIM nd) div nat ?k + 1]"
      by (simp add: upt_rec)
    then have "out = ?ref ! 0 # map (\<lambda>j. ?ref ! (j * nat ?k)) [1 ..< nat (N_SIM nd) div nat ?k + 1]"
      using o by simp
    then show ?thesis using cycle_ref_traj_row0 [OF assms(2), of B sim msg] by simp
  qed
  have b: "cycle_row0 B nd msg
         = to_mppi_state (pos_x msg) (pos_y msg) (cycle_yaw msg) (ang_z msg) (lin_x msg)
             (lin_y msg) (fst (run_model (policy B) (cycle_obs nd msg)))"
    by (simp add: cycle_row0_def cycle_action_def)
  have c: "\<exists>out. published_traj (oc_trace (pose_callback B nd sim msg)) = Some out"
    if "\<forall>a s. list_all (\<lambda>i. i < length (scans (fst (env_step B a s)))) (SCAN_INDEX nd)"
    using plan_published(1) [OF assms(1,2) that assms(3), of sim msg] by blast
  show ?thesis using a b c by blast
qed

theorem published_first_is_current_state_witness:
  "\<exists>out. published_traj (oc_trace (pose_callback scenario_backends scenario_node8 0 scenario_msg))
          = Some out
     \<and> hd out = cycle_row0 scenario_backends scenario_node8 scenario_msg"
  using published_first_is_current_state [of scenario_node8 scenario_backends 0 scenario_msg]
    scenario_scans_ok scenario8_ratio
  by (auto simp: scenario_node8_def)

subsection \<open>The two slip angles\<close>

lemma get_beta_zero: "get_beta 0 = 0"
  by (simp add: get_beta_def)

lemma zero_state_beta: "st_beta zero_state = np_arctan2 0 (st_vx zero_state)"
  by (simp add: zero_state_def np_arctan2_def)

lemma to_mppi_state_beta:
  "st_beta (to_mppi_state x y yaw yr vx vy d) = np_arctan2 vy (st_vx (to_mppi_state x y yaw yr vx vy d))"
  by (simp add: to_mppi_state_def)

lemma init_heading: "init c = Inr nd \<Longrightarrow> heading nd = (0, 0)"
  by (auto simp: init_def split: sum.splits if_splits)

lemma laser_callback_frame:
  "laser_callback nd m = Inr nd' \<Longrightarrow>
   heading nd' = heading nd \<and> pose nd' = pose nd \<and> vels nd' = vels nd
   \<and> SCAN_INDEX nd' = SCAN_INDEX nd \<and> N_SIM nd' = N_SIM nd \<and> DRIVE nd' = DRIVE nd
   \<and> cfg nd' = cfg nd \<and> length (laser_scan nd') = length (laser_scan nd)"
  by (auto simp: laser_callback_def Let_def split: sum.splits if_splits)

lemma cycle_start_rows:
  "\<forall>r\<in>set (rs_ref (cycle_start B nd sim msg)). \<exists>vy. st_beta r = np_arctan2 vy (st_vx r)"
proof
  fix r assume "r \<in> set (rs_ref (cycle_start B nd sim msg))"
  then have "r \<in> insert (cycle_row0 B nd msg) (set (replicate (nat (N_SIM nd + 1)) zero_state))"
    using set_update_subset_insert [of "replicate (nat (N_SIM nd + 1)) zero_state" 0 "cycle_row0 B nd msg"]
    by (auto simp: cycle_start_def)
  then have "r = cycle_row0 B nd msg \<or> r = zero_state" by auto
  then show "\<exists>vy. st_beta r = np_arctan2 vy (st_vx r)"
    using zero_state_beta to_mppi_state_beta by (auto simp: cycle_row0_def)
qed

lemma cycle_ref_traj_rows:
  "\<forall>r\<in>set (cycle_ref_traj B nd sim msg). \<exists>vy. st_beta r = np_arctan2 vy (st_vx r)"
  unfolding cycle_ref_traj_def by (rule rollout_rows) (rule cycle_start_rows)

lemma pose_callback_node:
  "0 \<le> N_SIM nd + 1 \<Longrightarrow> oc_node (pose_callback B nd sim msg) = cycle_node B nd msg"
proof -
  assume a: "0 \<le> N_SIM nd + 1"
  consider (e) "N_SIM nd + 1 = 0" | (d) "0 \<le> N_SIM nd" "DRIVE nd" | (p) "0 \<le> N_SIM nd" "\<not> DRIVE nd"
    using a by linarith
  then show ?thesis
  proof cases
    case e then show ?thesis by (simp add: pose_callback_empty)
  next
    case d then show ?thesis by (simp add: pose_callback_drive)
  next
    case p
    show ?thesis
      by (simp add: pose_callback_plan [OF p] Let_def split: option.splits sum.splits)
  qed
qed

lemma trace_policy_obs:
  assumes "snd (heading nd) = get_beta (fst (heading nd))"
  shows "\<forall>ob. PolicyRun ob \<in> set (oc_trace (pose_callback B nd sim msg)) \<longrightarrow>
           snd (obs_heading ob) = get_beta (fst (obs_heading ob))"
proof -
  have o: "snd (obs_heading (cycle_obs nd msg)) = get_beta (fst (obs_heading (cycle_obs nd msg)))"
    using assms by (simp add: cycle_obs_def)
  consider (n) "N_SIM nd + 1 < 0" | (e) "N_SIM nd + 1 = 0" | (d) "0 \<le> N_SIM nd" "DRIVE nd"
    | (p) "0 \<le> N_SIM nd" "\<not> DRIVE nd"
    by linarith
  then show ?thesis
  proof cases
    case n then show ?thesis by (simp add: pose_callback_negative)
  next
    case e then show ?thesis using o by (simp add: pose_callback_empty)
  next
    case d then show ?thesis using o by (simp add: pose_callback_drive)
  next
    case p
    from plan_general [OF p(2,1), of B sim msg] obtain evs fin where
      t: "oc_trace (pose_callback B nd sim msg)
          = [PolicyRun (cycle_obs nd msg), EnvReset (pos_x msg, pos_y msg, cycle_yaw msg)] @ evs @ fin"
      and h: "\<forall>e\<in>set evs. is_env_step e \<or>
             (\<exists>ob. e = PolicyRun ob \<and> snd (obs_heading ob) = get_beta (fst (obs_heading ob)))"
      and f: "fin = [] \<or> (\<exists>ms. fin = [VizPublish ms]) \<or>
               (\<exists>ms out. fin = [VizPublish ms, TrajPublish out]
                  \<and> slice_step (py_int (sim_time_step (cfg nd) / rl_sim_time_step (cfg nd)))
                       (cycle_ref_traj B nd sim msg) = Inr out)"
      by blast
    show ?thesis
    proof (intro allI impI)
      fix ob assume "PolicyRun ob \<in> set (oc_trace (pose_callback B nd sim msg))"
      then have "ob = cycle_obs nd msg \<or> PolicyRun ob \<in> set evs \<or> PolicyRun ob \<in> set fin"
        unfolding t by auto
      moreover have "PolicyRun ob \<notin> set fin" using f by auto
      moreover have "snd (obs_heading ob) = get_beta (fst (obs_heading ob))"
        if "PolicyRun ob \<in> set evs" using h that by fastforce
      ultimately show "snd (obs_heading ob) = get_beta (fst (obs_heading ob))"
        using o by blast
    qed
  qed
qed

lemma trace_published_rows:
  "\<forall>out row. TrajPublish out \<in> set (oc_trace (pose_callback B nd sim msg)) \<longrightarrow> row \<in> set out \<longrightarrow>
     (\<exists>vy. st_beta row = np_arctan2 vy (st_vx row))"
proof -
  consider (n) "N_SIM nd + 1 < 0" | (e) "N_SIM nd + 1 = 0" | (d) "0 \<le> N_SIM nd" "DRIVE nd"
    | (p) "0 \<le> N_SIM nd" "\<not> DRIVE nd"
    by linarith
  then show ?thesis
  proof cases
    case n then show ?thesis by (simp add: pose_callback_negative)
  next
    case e then show ?thesis by (simp add: pose_callback_empty)
  next
    case d then show ?thesis by (simp add: pose_callback_drive)
  next
    case p
    from plan_general [OF p(2,1), of B sim msg] obtain evs fin where
      t: "oc_trace (pose_callback B nd sim msg)
          = [PolicyRun (cycle_obs nd msg), EnvReset (pos_x msg, pos_y msg, cycle_yaw msg)] @ evs @ fin"
      and h: "\<forall>e\<in>set evs. is_env_step e \<or>
             (\<exists>ob. e = PolicyRun ob \<and> snd (obs_heading ob) = get_beta (fst (obs_heading ob)))"
      and f: "fin = [] \<or> (\<exists>ms. fin = [VizPublish ms]) \<or>
               (\<exists>ms out. fin = [VizPublish ms, TrajPublish out]
                  \<and> slice_step (py_int (sim_time_step (cfg nd) / rl_sim_time_step (cfg nd)))
                       (cycle_ref_traj B nd sim msg) = Inr out)"
      by blast
    show ?thesis
    proof (intro allI impI)
      fix out row
      assume m: "TrajPublish out \<in> set (oc_trace (pose_callback B nd sim msg))" and r: "row \<in> set out"
      have "TrajPublish out \<notin> set evs" using h by fastforce
      then have "TrajPublish out \<in> set fin" using m unfolding t by auto
      then have "slice_step (py_int (sim_time_step (cfg nd) / rl_sim_time_step (cfg nd)))
                       (cycle_ref_traj B nd sim msg) = Inr out"
        using f by auto
      then have "set out \<subseteq> set (cycle_ref_traj B nd sim msg)" by (rule slice_step_subset)
      then show "\<exists>vy. st_beta row = np_arctan2 vy (st_vx row)"
        using r cycle_ref_traj_rows [of B nd sim msg] by blast
    qed
  qed
qed

text \<open>
  Claim C5. Two slip angles are in use and each has its own place. The heading handed to the
  policy always carries the kinematic angle \<open>atan (LR \<sqdot> tan steer / (LF + LR))\<close> of its
  steer: this holds for the node that \<open>init\<close> builds, is kept by both callbacks, and holds
  for every policy run of a cycle, the one on the real state and those of the rollout. The
  \<open>beta\<close> field of a formatted state is \<open>atan2 (vy, vx)\<close> of the recorded velocity; so is
  it for row 0 and for every row of a published trajectory.
\<close>

theorem two_slip_angles:
  assumes "snd (heading nd) = get_beta (fst (heading nd))"
  shows "(\<forall>ob. PolicyRun ob \<in> set (oc_trace (pose_callback B nd sim msg)) \<longrightarrow>
            snd (obs_heading ob) = arctan (LR * tan (fst (obs_heading ob)) / (LF + LR)))
       \<and> snd (heading (oc_node (pose_callback B nd sim msg)))
           = arctan (LR * tan (fst (heading (oc_node (pose_callback B nd sim msg)))) / (LF + LR))
       \<and> (\<forall>out row. TrajPublish out \<in> set (oc_trace (pose_callback B nd sim msg)) \<longrightarrow>
              row \<in> set out \<longrightarrow> (\<exists>vy. st_beta row = np_arctan2 vy (st_vx row)))
       \<and> st_beta (to_mppi_state x y yaw yaw_rate vx vy delta) = np_arctan2 vy vx
       \<and> st_beta (cycle_row0 B nd msg) = np_arctan2 (lin_y msg) (lin_x msg)
       \<and> (\<forall>c nd0. init c = Inr nd0 \<longrightarrow> snd (heading nd0) = get_beta (fst (heading nd0)))
       \<and> (\<forall>m nd'. laser_callback nd m = Inr nd' \<longrightarrow> heading nd' = heading nd)"
proof -
  have a: "\<forall>ob. PolicyRun ob \<in> set (oc_trace (pose_callback B nd sim msg)) \<longrightarrow>
            snd (obs_heading ob) = arctan (LR * tan (fst (obs_heading ob)) / (LF + LR))"
    using trace_policy_obs [OF assms, of B sim msg] by (simp add: get_beta_def)
  have b: "snd (heading (oc_node (pose_callback B nd sim msg)))
           = arctan (LR * tan (fst (heading (oc_node (pose_callback B nd sim msg)))) / (LF + LR))"
  proof (cases "N_SIM nd + 1 < 0")
    case True
    then show ?thesis using assms by (simp add: pose_callback_negative get_beta_def)
  next
    case False
    then have "oc_node (pose_callback B nd sim msg) = cycle_node B nd msg"
      by (intro pose_callback_node) simp
    then show ?thesis by (simp add: cycle_node_def get_beta_def)
  qed
  have c: "st_beta (to_mppi_state x y yaw yaw_rate vx vy delta) = np_arctan2 vy vx"
    "st_beta (cycle_row0 B nd msg) = np_arctan2 (lin_y msg) (lin_x msg)"
    by (simp_all add: to_mppi_state_def cycle_row0_def)
  have d: "\<forall>c nd0. init c = Inr nd0 \<longrightarrow> snd (heading nd0) = get_beta (fst (heading nd0))"
    using init_heading get_beta_zero by simp
  have e: "\<forall>m nd'. laser_callback nd m = Inr nd' \<longrightarrow> heading nd' = heading nd"
    using laser_callback_frame by blast
  show ?thesis using a b c d e trace_published_rows [of B nd sim msg] by blast
qed

theorem two_slip_angles_witness:
  "snd (heading (oc_node (pose_callback scenario_backends scenario_node 0 scenario_msg)))
   = arctan (LR * tan (fst (heading
       (oc_node (pose_callback scenario_backends scenario_node 0 scenario_msg)))) / (LF + LR))"
  using two_slip_angles [of scenario_node scenario_backends 0 scenario_msg] get_beta_zero
  by (simp add: scenario_node_def)

subsection \<open>Yaw from the quaternion, and direct-drive mode\<close>

lemma cycle_yaw_cases:
  "cycle_yaw msg = (if - 1 \<le> ori_w msg \<and> ori_w msg \<le> 1 then Some (2 * arccos (ori_w msg)) else None)"
  by (simp add: cycle_yaw_def np_arccos_def)

text \<open>
  Claim C6, amended. The callback does not clamp \<open>w\<close>. For \<open>w\<close> within \<open>[-1, 1]\<close> the
  stored yaw is finite and equals \<open>2 \<sqdot> acos w\<close>; for \<open>w\<close> outside \<open>[-1, 1]\<close> the inverse
  cosine is undefined and the stored yaw is NaN.
\<close>

theorem yaw_not_clamped:
  assumes "0 \<le> N_SIM nd + 1"
  shows "(- 1 \<le> ori_w msg \<and> ori_w msg \<le> 1 \<longrightarrow>
            pose (oc_node (pose_callback B nd sim msg))
              = (pos_x msg, pos_y msg, Some (2 * arccos (ori_w msg))))
       \<and> (ori_w msg < - 1 \<or> 1 < ori_w msg \<longrightarrow>
            pose (oc_node (pose_callback B nd sim msg)) = (pos_x msg, pos_y msg, None))"
  using pose_callback_node [OF assms, of B sim msg]
  by (auto simp: cycle_node_def cycle_yaw_cases)

theorem yaw_not_clamped_witness:
  "pose (oc_node (pose_callback scenario_backends scenario_node 0 scenario_msg))
     = (0, 0, Some (2 * arccos 1))"
  using yaw_not_clamped [of scenario_node scenario_msg scenario_backends 0]
  by (simp add: scenario_node_def scenario_msg_def)

text \<open>
  The claim as written has the yaw always finite. For \<open>w = 2\<close> the stored yaw is NaN; a
  clamp to \<open>[-1, 1]\<close> would have given \<open>2 \<sqdot> acos 1 = 0\<close>.
\<close>

theorem yaw_nan_counterexample:
  "snd (snd (pose (oc_node
      (pose_callback scenario_backends scenario_node 0 (scenario_msg\<lparr>ori_w := 2\<rparr>))))) = None"
proof -
  have "0 \<le> N_SIM scenario_node + 1" by (simp add: scenario_node_def)
  from pose_callback_node [OF this, of scenario_backends 0 "scenario_msg\<lparr>ori_w := 2\<rparr>"]
  show ?thesis by (simp add: cycle_node_def cycle_yaw_cases)
qed

lemma pose_callback_ignores_z:
  "pose_callback B nd sim (msg\<lparr>ori_z := z\<rparr>) = pose_callback B nd sim msg"
proof -
  have y: "cycle_yaw (msg\<lparr>ori_z := z\<rparr>) = cycle_yaw msg" by (simp add: cycle_yaw_def)
  have o: "cycle_obs nd (msg\<lparr>ori_z := z\<rparr>) = cycle_obs nd msg" by (simp add: cycle_obs_def y)
  have a: "cycle_action B nd (msg\<lparr>ori_z := z\<rparr>) = cycle_action B nd msg"
    by (simp add: cycle_action_def o)
  have n: "cycle_node B nd (msg\<lparr>ori_z := z\<rparr>) = cycle_node B nd msg"
    by (simp add: cycle_node_def a y)
  have r: "cycle_row0 B nd (msg\<lparr>ori_z := z\<rparr>) = cycle_row0 B nd msg"
    by (simp add: cycle_row0_def a y)
  have s: "cycle_start B nd sim (msg\<lparr>ori_z := z\<rparr>) = cycle_start B nd sim msg"
    by (simp add: cycle_start_def a y o r)
  consider (n) "N_SIM nd + 1 < 0" | (e) "N_SIM nd + 1 = 0" | (d) "0 \<le> N_SIM nd" "DRIVE nd"
    | (p) "0 \<le> N_SIM nd" "\<not> DRIVE nd"
    by linarith
  then show ?thesis
  proof cases
    case n then show ?thesis by (simp add: pose_callback_negative)
  next
    case e then show ?thesis by (simp add: pose_callback_empty n o)
  next
    case d then show ?thesis by (simp add: pose_callback_drive n o a)
  next
    case p
    show ?thesis
      unfolding pose_callback_plan [OF p] cycle_ref_traj_def n s by (rule refl)
  qed
qed

text \<open>
  Claim C10. For \<open>w\<close> within \<open>[-1, 1]\<close> the stored yaw is \<open>2 \<sqdot> acos w\<close>, between 0 and
  \<open>2\<pi>\<close>. The callback never reads the \<open>z\<close> component of the quaternion, so the
  pure-yaw quaternions of the rotations \<open>\<theta>\<close> and \<open>-\<theta>\<close> give the same stored pose.
\<close>

theorem yaw_nonnegative_sign_lost:
  assumes "0 \<le> N_SIM nd + 1" and "- 1 \<le> ori_w msg" and "ori_w msg \<le> 1"
  shows "(\<exists>y. snd (snd (pose (oc_node (pose_callback B nd sim msg)))) = Some y
            \<and> y = 2 * arccos (ori_w msg) \<and> 0 \<le> y \<and> y \<le> 2 * pi)
       \<and> pose_callback B nd sim (msg\<lparr>ori_z := z\<rparr>) = pose_callback B nd sim msg
       \<and> pose (oc_node (pose_callback B nd sim
                 (msg\<lparr>ori_w := cos (\<theta> / 2), ori_z := sin (\<theta> / 2)\<rparr>)))
         = pose (oc_node (pose_callback B nd sim
                 (msg\<lparr>ori_w := cos (- \<theta> / 2), ori_z := sin (- \<theta> / 2)\<rparr>)))"
proof -
  have p: "pose (oc_node (pose_callback B nd sim msg))
              = (pos_x msg, pos_y msg, Some (2 * arccos (ori_w msg)))"
    using pose_callback_node [OF assms(1), of B sim msg] assms(2,3)
    by (simp add: cycle_node_def cycle_yaw_cases)
  have "0 \<le> arccos (ori_w msg)" "arccos (ori_w msg) \<le> pi"
    using assms(2,3) by (simp_all add: arccos_lbound arccos_ubound)
  then have a: "\<exists>y. snd (snd (pose (oc_node (pose_callback B nd sim msg)))) = Some y
            \<and> y = 2 * arccos (ori_w msg) \<and> 0 \<le> y \<and> y \<le> 2 * pi"
    using p by simp
  have "pose_callback B nd sim (msg\<lparr>ori_w := cos (\<theta> / 2), ori_z := sin (\<theta> / 2)\<rparr>)
        = pose_callback B nd sim (msg\<lparr>ori_w := cos (\<theta> / 2)\<rparr>)"
    by (rule pose_callback_ignores_z)
  moreover have "pose_callback B nd sim (msg\<lparr>ori_w := cos (- \<theta> / 2), ori_z := sin (- \<theta> / 2)\<rparr>)
        = pose_callback B nd sim (msg\<lparr>ori_w := cos (\<theta> / 2)\<rparr>)"
    using pose_callback_ignores_z [where msg = "msg\<lparr>ori_w := cos (\<theta> / 2)\<rparr>" and z = "sin (- \<theta> / 2)"]
    by simp
  ultimately show ?thesis using a pose_callback_ignores_z [where msg = msg and z = z] by simp
qed

theorem yaw_nonnegative_sign_lost_witness:
  "snd (snd (pose (oc_node (pose_callback scenario_backends scenario_node 0 scenario_msg))))
     = Some 0"
  using yaw_nonnegative_sign_lost [of scenario_node scenario_msg scenario_backends 0]
  by (auto simp: scenario_node_def scenario_msg_def)

text \<open>
  Claim C9. In direct-drive mode (\<^verbatim>\<open>DRIVE\<close>, set at start-up to the negation of
  \<^verbatim>\<open>use_mppi\<close>) a callback leaves the simulator untouched, neither resets nor steps it,
  and publishes no visualization and no trajectory; of the node only pose, velocity and
  heading change. With a horizon \<open>N_SIM \<ge> 0\<close> it returns without an exception after the
  policy run and the drive command.
\<close>

theorem drive_mode_returns_early:
  assumes "DRIVE nd"
  shows "oc_sim (pose_callback B nd sim msg) = sim
       \<and> count_events is_env_reset (oc_trace (pose_callback B nd sim msg)) = 0
       \<and> count_events is_env_step (oc_trace (pose_callback B nd sim msg)) = 0
       \<and> count_events is_viz_publish (oc_trace (pose_callback B nd sim msg)) = 0
       \<and> count_events is_traj_publish (oc_trace (pose_callback B nd sim msg)) = 0
       \<and> laser_scan (oc_node (pose_callback B nd sim msg)) = laser_scan nd
       \<and> SCAN_INDEX (oc_node (pose_callback B nd sim msg)) = SCAN_INDEX nd
       \<and> N_SIM (oc_node (pose_callback B nd sim msg)) = N_SIM nd
       \<and> DRIVE (oc_node (pose_callback B nd sim msg)) = DRIVE nd
       \<and> cfg (oc_node (pose_callback B nd sim msg)) = cfg nd
       \<and> (0 \<le> N_SIM nd \<longrightarrow>
            pose_callback B nd sim msg
              = \<lparr>oc_err = None,
                 oc_node = nd\<lparr>pose := (pos_x msg, pos_y msg, cycle_yaw msg),
                              vels := (lin_x msg, lin_y msg, ang_z msg),
                              heading := (fst (cycle_action B nd msg),
                                          get_beta (fst (cycle_action B nd msg)))\<rparr>,
                 oc_sim = sim,
                 oc_trace = [PolicyRun (cycle_obs nd msg),
                             DrivePublish (snd (cycle_action B nd msg))
                               (fst (cycle_action B nd msg))]\<rparr>)
       \<and> (\<forall>c nd0. init c = Inr nd0 \<longrightarrow> DRIVE nd0 = (\<not> use_mppi c))"
proof -
  have i: "\<forall>c nd0. init c = Inr nd0 \<longrightarrow> DRIVE nd0 = (\<not> use_mppi c)"
    by (auto simp: init_def split: sum.splits if_splits)
  consider (n) "N_SIM nd + 1 < 0" | (e) "N_SIM nd + 1 = 0" | (d) "0 \<le> N_SIM nd"
    by linarith
  then show ?thesis
  proof cases
    case n
    then show ?thesis using i by (simp add: pose_callback_negative count_events_def)
  next
    case e
    then show ?thesis using i
      by (simp add: pose_callback_empty count_events_def cycle_node_def)
  next
    case d
    then show ?thesis using i assms
      by (simp add: pose_callback_drive count_events_def cycle_node_def)
  qed
qed

theorem drive_mode_returns_early_witness:
  "oc_trace (pose_callback scenario_backends (scenario_node\<lparr>DRIVE := True\<rparr>) 0 scenario_msg)
     = [PolicyRun (cycle_obs (scenario_node\<lparr>DRIVE := True\<rparr>) scenario_msg),
        DrivePublish (snd (cycle_action scenario_backends (scenario_node\<lparr>DRIVE := True\<rparr>) scenario_msg))
          (fst (cycle_action scenario_backends (scenario_node\<lparr>DRIVE := True\<rparr>) scenario_msg))]
   \<and> oc_sim (pose_callback scenario_backends (scenario_node\<lparr>DRIVE := True\<rparr>) 0 scenario_msg) = 0"
  using drive_mode_returns_early [of "scenario_node\<lparr>DRIVE := True\<rparr>" scenario_backends 0 scenario_msg]
  by (simp add: scenario_node_def)

subsection \<open>The scan buffer\<close>

lemma init_scan_fields:
  assumes "init c = Inr nd0"
  shows "0 < num_scans c" and "num_scans c \<le> 1080"
    and "SCAN_INDEX nd0 = map (\<lambda>j. j * nat (1080 div num_scans c))
           [0 ..< (1080 + nat (1080 div num_scans c) - 1) div nat (1080 div num_scans c)]"
    and "laser_scan nd0 = replicate (nat (num_scans c)) 10"
proof -
  from assms obtain idx where i: "scan_index (num_scans c) = Inr idx"
    and n: "\<not> num_scans c < 0" and nd: "SCAN_INDEX nd0 = idx"
    and ls: "laser_scan nd0 = replicate (nat (num_scans c)) 10"
    by (auto simp: init_def split: sum.splits if_splits)
  from i have z: "num_scans c \<noteq> 0" and s: "1080 div num_scans c \<noteq> 0"
    by (auto simp: scan_index_def Let_def split: if_splits)
  show p: "0 < num_scans c" using n z by simp
  show le: "num_scans c \<le> 1080"
  proof (rule ccontr)
    assume "\<not> num_scans c \<le> 1080"
    then have "1080 div num_scans c = 0" by (simp add: div_pos_pos_trivial)
    with s show False by simp
  qed
  have "0 < 1080 div num_scans c"
    using p le by (simp add: pos_imp_zdiv_pos_iff)
  then show "SCAN_INDEX nd0 = map (\<lambda>j. j * nat (1080 div num_scans c))
           [0 ..< (1080 + nat (1080 div num_scans c) - 1) div nat (1080 div num_scans c)]"
    using i nd z by (simp add: scan_index_def Let_def)
  show "laser_scan nd0 = replicate (nat (num_scans c)) 10" by (rule ls)
qed

lemma stride_count:
  assumes "0 < (s::nat)"
  shows "(n * s + s - 1) div s = n"
proof -
  obtain t where t: "s = Suc t" using assms by (cases s) auto
  have nz: "s \<noteq> 0" using assms by simp
  have "n * s + s - 1 = t + n * s" using t by simp
  then have "(n * s + s - 1) div s = (t + n * s) div s" by (rule arg_cong)
  also have "\<dots> = n + t div s" using nz by (rule div_mult_self1)
  also have "t div s = 0" using t by simp
  finally show ?thesis by simp
qed

text \<open>
  Claim C7, amended. The indices are fixed at start-up for a scan of 1080 readings, with
  stride \<open>\<lfloor>1080 / beams\<rfloor>\<close>. When the beam count divides 1080, the scan has more than
  \<open>1080 - stride\<close> readings and \<open>range_min \<le> range_max\<close>, the callback fills the buffer
  with exactly beam-count readings, the clipped readings at the multiples of the stride,
  each within \<open>[range_min, range_max]\<close>.
\<close>

theorem scan_buffer_length:
  assumes "init c = Inr nd0" and "num_scans c dvd 1080"
    and "SCAN_INDEX nd = SCAN_INDEX nd0" and "length (laser_scan nd) = length (laser_scan nd0)"
    and "1080 - 1080 div num_scans c < int (length (ranges msg))"
    and "range_min msg \<le> range_max msg"
  shows "\<exists>nd'. laser_callback nd msg = Inr nd'
           \<and> length (laser_scan nd') = nat (num_scans c)
           \<and> (\<forall>r\<in>set (laser_scan nd'). range_min msg \<le> r \<and> r \<le> range_max msg)
           \<and> laser_scan nd'
             = map (\<lambda>j. clip (range_min msg) (range_max msg)
                          (ranges msg ! (j * nat (1080 div num_scans c))))
                 [0 ..< nat (num_scans c)]"
proof -
  define n where "n = nat (num_scans c)"
  define s where "s = nat (1080 div num_scans c)"
  let ?clipped = "map (clip (range_min msg) (range_max msg)) (ranges msg)"
  note f = init_scan_fields [OF assms(1)]
  have npos: "0 < n" using f(1) by (simp add: n_def)
  have "num_scans c * (1080 div num_scans c) = 1080"
    using assms(2) by simp
  then have "nat (num_scans c * (1080 div num_scans c)) = 1080" by simp
  then have ns: "n * s = 1080"
    using f(1) by (simp add: n_def s_def nat_mult_distrib)
  then have spos: "0 < s" using npos by (cases s) simp_all
  have cnt: "(1080 + s - 1) div s = n"
    using stride_count [OF spos, of n] ns by simp
  have idx: "SCAN_INDEX nd = map (\<lambda>j. j * s) [0 ..< n]"
    using f(3) cnt assms(3) by (simp add: s_def)
  have sle: "s \<le> 1080" using ns npos by (cases n) simp_all
  have "int s = 1080 div num_scans c"
    using f(1) by (simp add: s_def pos_imp_zdiv_nonneg_iff)
  then have "int (1080 - s) = 1080 - 1080 div num_scans c"
    using sle by (simp add: of_nat_diff)
  then have "int (1080 - s) < int (length (ranges msg))"
    using assms(5) by simp
  then have len: "1080 - s < length (ranges msg)"
    by (simp only: of_nat_less_iff)
  have inr: "j * s < length (ranges msg)" if "j < n" for j
  proof -
    have "Suc j \<le> n" using that by simp
    then have "Suc j * s \<le> n * s" by (rule mult_le_mono1)
    then have "j * s \<le> 1080 - s" using ns by simp
    then show ?thesis using len by simp
  qed
  have all: "list_all (\<lambda>i. i < length ?clipped) (SCAN_INDEX nd)"
    using inr by (simp add: idx list_all_iff)
  have sel: "take_idx ?clipped (SCAN_INDEX nd)
             = Inr (map (\<lambda>j. clip (range_min msg) (range_max msg) (ranges msg ! (j * s))) [0 ..< n])"
    using all inr by (simp add: take_idx_def idx)
  have ll: "length (laser_scan nd) = n"
    using assms(4) f(4) by (simp add: n_def)
  let ?sel = "map (\<lambda>j. clip (range_min msg) (range_max msg) (ranges msg ! (j * s))) [0 ..< n]"
  have r: "laser_callback nd msg = Inr (nd\<lparr>laser_scan := ?sel\<rparr>)"
    using sel ll by (simp add: laser_callback_def Let_def)
  have b: "\<forall>r\<in>set ?sel. range_min msg \<le> r \<and> r \<le> range_max msg"
    using clip_bounds [OF assms(6)] by auto
  show ?thesis
    using r b by (simp add: n_def [symmetric] s_def [symmetric])
qed

theorem scan_buffer_length_witness:
  "\<exists>nd'. laser_callback scenario_node (scenario_scan 1080) = Inr nd'
      \<and> length (laser_scan nd') = 2"
  using scan_buffer_length [of scenario_cfg scenario_node scenario_node "scenario_scan 1080"]
    scenario_init
  by (auto simp: scenario_cfg_def scenario_scan_def)

text \<open>
  The claim as written asks only for a scan length that is a multiple of the beam count.
  With 2 beams the indices are 0 and 540; a scan of 540 readings (270 times the beam
  count) makes the callback raise IndexError.
\<close>

theorem scan_too_short_counterexample:
  "laser_callback scenario_node (scenario_scan 540) = Inl IndexError
   \<and> length (ranges (scenario_scan 540)) = 270 * length (laser_scan scenario_node)"
  by (simp add: laser_callback_def take_idx_def scenario_node_def scenario_scan_def Let_def)

end
